theory Spec2Isabelle
  imports Complex_Main "HOL-Library.Word" "HOL-Library.AList"
begin

section \<open>JavaScript values\<close>

subsection \<open>Strings\<close>

text \<open>
  A JavaScript string is a sequence of UTF-16 code units; \<open>s.length\<close> counts code
  units.  ASCII literals of the sources are written \<open>js ''...''\<close>, every other code unit
  as its number.
\<close>

type_synonym code_unit = "16 word"
type_synonym jsstring = "code_unit list"

definition js :: "string \<Rightarrow> jsstring" where
  "js s = map of_char s"

text \<open>
  \<open>String.prototype.toLowerCase\<close> follows the case tables of Unicode, code point by code
  point and with rules that look at the neighbours of a letter.  The functions of the
  resolver are therefore embedded with the lower-casing function as their first argument
  \<open>lower\<close> (the names ending in \<open>With\<close>), and what is proved of them for every
  \<open>lower\<close> holds whatever the tables say.

  \<open>toLowerCase\<close> below is the part of the built-in on Basic Latin, on the Latin-1
  Supplement, on U+0130 (capital I with dot above, the one code point whose lower case is
  two code units long, U+0069 U+0307) and on the Arabic block, which has no case: the
  letters of every string written in the sources.  It leaves every other code unit as it
  is, also the cased letters of other blocks, on which it is not the built-in.  The
  resolver at \<open>toLowerCase\<close> carries the names of the source.
\<close>

definition lowerUnit :: "code_unit \<Rightarrow> jsstring" where
  "lowerUnit c =
     (if 0x41 \<le> c \<and> c \<le> 0x5A then [c + 0x20]
      else if (0xC0 \<le> c \<and> c \<le> 0xD6) \<or> (0xD8 \<le> c \<and> c \<le> 0xDE) then [c + 0x20]
      else if c = 0x130 then [0x69, 0x307]
      else [c])"

definition toLowerCase :: "jsstring \<Rightarrow> jsstring" where
  "toLowerCase s = concat (map lowerUnit s)"

text \<open>
  \<open>String.prototype.trim\<close> strips the code units of \<open>WhiteSpace\<close> and
  \<open>LineTerminator\<close> from both ends.
\<close>

definition isWhiteSpace :: "code_unit \<Rightarrow> bool" where
  "isWhiteSpace c =
     (c = 0x9 \<or> c = 0xA \<or> c = 0xB \<or> c = 0xC \<or> c = 0xD \<or> c = 0x20 \<or> c = 0xA0
      \<or> c = 0x1680 \<or> (0x2000 \<le> c \<and> c \<le> 0x200A) \<or> c = 0x2028 \<or> c = 0x2029
      \<or> c = 0x202F \<or> c = 0x205F \<or> c = 0x3000 \<or> c = 0xFEFF)"

definition trim :: "jsstring \<Rightarrow> jsstring" where
  "trim s = rev (dropWhile isWhiteSpace (rev (dropWhile isWhiteSpace s)))"

text \<open>\<open>s.includes(k)\<close>: \<open>k\<close> occurs in \<open>s\<close> as a contiguous run of code units.\<close>

fun startsWith :: "jsstring \<Rightarrow> jsstring \<Rightarrow> bool" where
  "startsWith s [] = True"
| "startsWith [] (c # k) = False"
| "startsWith (d # s) (c # k) = (d = c \<and> startsWith s k)"

fun js_includes :: "jsstring \<Rightarrow> jsstring \<Rightarrow> bool" where
  "js_includes [] k = (k = [])"
| "js_includes (d # s) k = (startsWith (d # s) k \<or> js_includes s k)"

subsection \<open>Numbers\<close>

text \<open>
  A JavaScript number is an IEEE double.  The resolver only divides one string length by
  another and compares the quotients with each other, with \<open>0\<close> and with the literal
  \<open>0.1\<close>.  A finite double is modelled by a rational, the quotient of two lengths by
  the exact quotient and the literal \<open>0.1\<close> by one tenth; the three values that are not
  finite are kept apart.  The comparisons of the source and those of the model agree:
  rounding to the nearest double is monotone, it keeps \<open>a / n\<close> and \<open>b / n\<close> apart
  for \<open>a \<noteq> b\<close> at every length a string can have, and a double is below the double
  \<open>0.1\<close> exactly when its value is below one tenth.
\<close>

datatype number = NaN | PosInfinity | NegInfinity | Finite rat

text \<open>\<open>a / b\<close> on two lengths: \<open>0 / 0\<close> is \<open>NaN\<close>, \<open>a / 0\<close> is \<open>Infinity\<close>.\<close>

definition js_div :: "nat \<Rightarrow> nat \<Rightarrow> number" where
  "js_div a b =
     (if b = 0 then (if a = 0 then NaN else PosInfinity)
      else Finite (of_nat a / of_nat b))"

text \<open>\<open>x > y\<close> and \<open>x < y\<close>: false as soon as one side is \<open>NaN\<close>.\<close>

fun js_gt :: "number \<Rightarrow> number \<Rightarrow> bool" where
  "js_gt NaN y = False"
| "js_gt x NaN = False"
| "js_gt PosInfinity y = (y \<noteq> PosInfinity)"
| "js_gt NegInfinity y = False"
| "js_gt (Finite a) PosInfinity = False"
| "js_gt (Finite a) NegInfinity = True"
| "js_gt (Finite a) (Finite b) = (b < a)"

definition js_lt :: "number \<Rightarrow> number \<Rightarrow> bool" where
  "js_lt x y = js_gt y x"

section \<open>The shared schema (the last part of src/chatbot.ts)\<close>

record ServiceIntent =
  intent :: jsstring
  confidence :: number
  category :: jsstring

datatype language = ar | fr

text \<open>
  A \<open>jsonb\<close> column holds any JSON value; the resolver asks \<open>Array.isArray\<close> and takes
  the elements of an array as the keyword strings.  The elements are strings here, as the
  data model and the admin panel have them; on an element that is no string the call
  \<open>keyword.toLowerCase()\<close> would raise a \<open>TypeError\<close>, which this type leaves out.
  Messages are strings as well: the routes validate them, and a Messenger event without
  text is outside the model.
\<close>

datatype jsonb = JArray "jsstring list" | JOther

record InsertBotResponse =
  intent :: jsstring
  keywords' :: jsonb
  responseAr :: jsstring
  responseFr :: jsstring
  category :: jsstring
  isActive :: bool

record BotResponse = InsertBotResponse +
  id' :: jsstring

section \<open>The keyword scan\<close>

text \<open>
  Both \<open>analyzeIntent\<close> functions start from the same \<open>bestMatch\<close> and run the same
  loop body on every keyword: the match is tested on the normalized message, the
  confidence is the length of the keyword as it is stored over the length of the message
  as it was received, and \<open>bestMatch\<close> is replaced only by a strictly greater confidence.
  \<open>lower keyword\<close> is \<open>keyword.toLowerCase()\<close>.
\<close>

definition unknownMatch :: ServiceIntent where
  "unknownMatch =
     \<lparr>ServiceIntent.intent = js ''unknown'', confidence = Finite 0, category = js ''general''\<rparr>"

definition considerKeywordWith ::
  "(jsstring \<Rightarrow> jsstring) \<Rightarrow> jsstring \<Rightarrow> jsstring \<Rightarrow> jsstring \<Rightarrow> jsstring \<Rightarrow> jsstring
     \<Rightarrow> ServiceIntent \<Rightarrow> ServiceIntent" where
  "considerKeywordWith lower normalizedMessage message intentName cat keyword bestMatch =
     (if js_includes normalizedMessage (lower keyword) then
        (let confidence = js_div (length keyword) (length message) in
         if js_gt confidence (ServiceIntent.confidence bestMatch)
         then \<lparr>ServiceIntent.intent = intentName, confidence = confidence, category = cat\<rparr>
         else bestMatch)
      else bestMatch)"

abbreviation considerKeyword ::
  "jsstring \<Rightarrow> jsstring \<Rightarrow> jsstring \<Rightarrow> jsstring \<Rightarrow> jsstring \<Rightarrow> ServiceIntent \<Rightarrow> ServiceIntent" where
  "considerKeyword \<equiv> considerKeywordWith toLowerCase"

section \<open>src/chatbot.ts: the class MobilisChatBot\<close>

record PredefinedIntent =
  keywords' :: "jsstring list"
  category :: jsstring

text \<open>
  The object \<open>predefinedIntents\<close> is kept as the list \<open>Object.entries\<close> gives: the
  property names with their values, in insertion order.
\<close>

record MobilisChatBot =
  predefinedIntents :: "(jsstring \<times> PredefinedIntent) list"

definition mobilisBot :: MobilisChatBot where
  "mobilisBot =
     \<lparr>predefinedIntents =
       [(js ''balance'',
        \<lparr>PredefinedIntent.keywords' =
           [[0x631, 0x635, 0x64A, 0x62F],
            js ''balance'',
            js ''solde'',
            js ''credit'',
            [0x627, 0x633, 0x62A, 0x639, 0x644, 0x627, 0x645]],
         category = js ''balance''\<rparr>),
       (js ''recharge'',
        \<lparr>PredefinedIntent.keywords' =
           [[0x634, 0x62D, 0x646],
            js ''recharge'',
            js ''rechargement'',
            js ''credit'',
            js ''top-up''],
         category = js ''recharge''\<rparr>),
       (js ''plans'',
        \<lparr>PredefinedIntent.keywords' =
           [[0x628, 0x627, 0x642, 0x629],
            [0x628, 0x627, 0x642, 0x627, 0x62A],
            js ''forfait'',
            js ''plans'',
            js ''abonnement'',
            js ''subscription''],
         category = js ''plans''\<rparr>),
       (js ''support'',
        \<lparr>PredefinedIntent.keywords' =
           [[0x645, 0x633, 0x627, 0x639, 0x62F, 0x629],
            [0x62F, 0x639, 0x645],
            js ''aide'',
            js ''support'',
            js ''probl'' @ [0xE8, 0x6D, 0x65],
            [0x645, 0x634, 0x643, 0x644, 0x629],
            js ''help''],
         category = js ''support''\<rparr>),
       (js ''greeting'',
        \<lparr>PredefinedIntent.keywords' =
           [[0x645, 0x631, 0x62D, 0x628, 0x627],
            [0x623, 0x647, 0x644, 0x627],
            [0x627, 0x644, 0x633, 0x644, 0x627, 0x645],
            js ''bonjour'',
            js ''salut'',
            js ''hello'',
            js ''hi''],
         category = js ''general''\<rparr>)]\<rparr>"

text \<open>
  \<open>analyzeIntent\<close> reads \<open>this.predefinedIntents\<close>; the object is passed in and handed
  back with the result.  \<open>trim (lower message)\<close> is \<open>message.toLowerCase().trim()\<close>.
\<close>

definition MobilisChatBot_analyzeIntentWith ::
  "(jsstring \<Rightarrow> jsstring) \<Rightarrow> jsstring \<Rightarrow> MobilisChatBot \<Rightarrow> ServiceIntent \<times> MobilisChatBot" where
  "MobilisChatBot_analyzeIntentWith lower message this =
     (let normalizedMessage = trim (lower message);
          bestMatch = unknownMatch
      in (fold (\<lambda>(intentName, intentData).
                  fold (considerKeywordWith lower normalizedMessage message intentName
                          (PredefinedIntent.category intentData))
                       (PredefinedIntent.keywords' intentData))
               (predefinedIntents this) bestMatch,
          this))"

abbreviation MobilisChatBot_analyzeIntent ::
  "jsstring \<Rightarrow> MobilisChatBot \<Rightarrow> ServiceIntent \<times> MobilisChatBot" where
  "MobilisChatBot_analyzeIntent \<equiv> MobilisChatBot_analyzeIntentWith toLowerCase"

record Replies =
  balance :: jsstring
  recharge :: jsstring
  plans :: jsstring
  support :: jsstring
  greeting :: jsstring
  unknown :: jsstring

definition responses_ar :: Replies where
  "responses_ar =
     \<lparr>Replies.balance =
         [0x64A, 0x645, 0x643, 0x646, 0x643, 0x645, 0x20, 0x627, 0x644, 0x627, 0x633, 0x62A,
            0x639, 0x644, 0x627, 0x645, 0x20, 0x639, 0x646, 0x20, 0x631, 0x635, 0x64A,
            0x62F, 0x643, 0x645, 0x20, 0x639, 0x628, 0x631, 0x20, 0x627, 0x644, 0x627,
            0x62A, 0x635, 0x627, 0x644, 0x20, 0x628, 0x640, 0x20, 0x2A] @ js ''555''
           @ [0x23, 0x20, 0x623, 0x648, 0x20, 0x639, 0x628, 0x631, 0x20, 0x62A, 0x637,
            0x628, 0x64A, 0x642, 0x20, 0x645, 0x648, 0x628, 0x644, 0x64A, 0x633],
      recharge =
         [0x64A, 0x645, 0x643, 0x646, 0x643, 0x645, 0x20, 0x634, 0x62D, 0x646, 0x20, 0x631,
            0x635, 0x64A, 0x62F, 0x643, 0x645, 0x20, 0x639, 0x628, 0x631, 0x20, 0x628,
            0x637, 0x627, 0x642, 0x627, 0x62A, 0x20, 0x627, 0x644, 0x634, 0x62D, 0x646,
            0x20, 0x623, 0x648, 0x20, 0x639, 0x628, 0x631, 0x20, 0x627, 0x644, 0x62A, 0x637,
            0x628, 0x64A, 0x642, 0x20, 0x627, 0x644, 0x645, 0x635, 0x631, 0x641, 0x64A,
            0x20, 0x623, 0x648, 0x20, 0x646, 0x642, 0x627, 0x637, 0x20, 0x627, 0x644, 0x628,
            0x64A, 0x639, 0x20, 0x627, 0x644, 0x645, 0x639, 0x62A, 0x645, 0x62F, 0x629],
      plans =
         [0x644, 0x62F, 0x64A, 0x646, 0x627, 0x20, 0x628, 0x627, 0x642, 0x627, 0x62A, 0x20,
            0x645, 0x62A, 0x646, 0x648, 0x639, 0x629, 0x20, 0x644, 0x644, 0x645, 0x643,
            0x627, 0x644, 0x645, 0x627, 0x62A, 0x20, 0x648, 0x627, 0x644, 0x625, 0x646,
            0x62A, 0x631, 0x646, 0x62A, 0x2E, 0x20, 0x627, 0x62A, 0x635, 0x644, 0x20, 0x628,
            0x640] @ js '' 600 '' @ [0x644, 0x644, 0x645, 0x632, 0x64A, 0x62F, 0x20, 0x645,
            0x646, 0x20, 0x627, 0x644, 0x62A, 0x641, 0x627, 0x635, 0x64A, 0x644, 0x20,
            0x623, 0x648, 0x20, 0x632, 0x648, 0x631, 0x648, 0x627, 0x20, 0x623, 0x642,
            0x631, 0x628, 0x20, 0x648, 0x643, 0x627, 0x644, 0x629, 0x20, 0x645, 0x648,
            0x628, 0x644, 0x64A, 0x633],
      support =
         [0x641, 0x631, 0x64A, 0x642, 0x20, 0x627, 0x644, 0x62F, 0x639, 0x645, 0x20, 0x627,
            0x644, 0x641, 0x646, 0x64A, 0x20, 0x645, 0x62A, 0x627, 0x62D, 0x20, 0x639,
            0x644, 0x649] @ js '' 600 '' @ [0x645, 0x646] @ js '' 8:00 '' @ [0x625, 0x644,
            0x649] @ js '' 20:00'' @ [0x60C, 0x20, 0x623, 0x648, 0x20, 0x64A, 0x645, 0x643,
            0x646, 0x643, 0x645, 0x20, 0x632, 0x64A, 0x627, 0x631, 0x629, 0x20, 0x623,
            0x642, 0x631, 0x628, 0x20, 0x648, 0x643, 0x627, 0x644, 0x629, 0x20, 0x645,
            0x648, 0x628, 0x644, 0x64A, 0x633],
      greeting =
         [0x645, 0x631, 0x62D, 0x628, 0x627, 0x64B, 0x20, 0x628, 0x643, 0x645, 0x20, 0x641,
            0x64A, 0x20, 0x62E, 0x62F, 0x645, 0x629, 0x20, 0x639, 0x645, 0x644, 0x627,
            0x621, 0x20, 0x645, 0x648, 0x628, 0x644, 0x64A, 0x633, 0x21, 0x20, 0x643, 0x64A,
            0x641, 0x20, 0x64A, 0x645, 0x643, 0x646, 0x646, 0x64A, 0x20, 0x645, 0x633,
            0x627, 0x639, 0x62F, 0x62A, 0x643, 0x645, 0x20, 0x627, 0x644, 0x64A, 0x648,
            0x645, 0x61F],
      unknown =
         [0x639, 0x630, 0x631, 0x627, 0x64B, 0x60C, 0x20, 0x644, 0x645, 0x20, 0x623, 0x641,
            0x647, 0x645, 0x20, 0x627, 0x633, 0x62A, 0x641, 0x633, 0x627, 0x631, 0x643,
            0x645, 0x2E, 0x20, 0x64A, 0x645, 0x643, 0x646, 0x643, 0x645, 0x20, 0x627, 0x644,
            0x62A, 0x648, 0x627, 0x635, 0x644, 0x20, 0x645, 0x639, 0x20, 0x62E, 0x62F,
            0x645, 0x629, 0x20, 0x627, 0x644, 0x639, 0x645, 0x644, 0x627, 0x621, 0x20,
            0x639, 0x644, 0x649] @ js '' 600 '' @ [0x623, 0x648, 0x20, 0x632, 0x64A, 0x627,
            0x631, 0x629, 0x20, 0x623, 0x642, 0x631, 0x628, 0x20, 0x648, 0x643, 0x627,
            0x644, 0x629, 0x20, 0x645, 0x648, 0x628, 0x644, 0x64A, 0x633]\<rparr>"

definition responses_fr :: Replies where
  "responses_fr =
     \<lparr>Replies.balance =
         js ''Vous pouvez consulter votre solde en composant '' @ [0x2A] @ js ''555''
           @ [0x23] @ js '' ou via l'' @ [0x27] @ js ''application Mobilis'',
      recharge =
         js ''Vous pouvez recharger via les cartes de recharge, l'' @ [0x27]
           @ js ''application bancaire ou les points de vente agr'' @ [0xE9, 0xE9, 0x73],
      plans =
         js ''Nous avons diverses offres d'' @ [0x27]
           @ js ''appels et internet. Appelez le 600 pour plus de d'' @ [0xE9]
           @ js ''tails ou visitez une agence Mobilis'',
      support =
         js ''Le support technique est disponible au 600 de 8h00 '' @ [0xE0]
           @ js '' 20h00, ou visitez l'' @ [0x27] @ js ''agence Mobilis la plus proche'',
      greeting =
         js ''Bienvenue chez Mobilis! Comment puis-je vous aider aujourd'' @ [0x27]
           @ js ''hui?'',
      unknown =
         [0x44, 0xE9] @ js ''sol'' @ [0xE9] @ js '', je n'' @ [0x27]
           @ js ''ai pas compris votre demande. Vous pouvez contacter le service client au 600 ou visiter une agence Mobilis''\<rparr>"

definition responses :: "language \<Rightarrow> Replies" where
  "responses language = (case language of ar \<Rightarrow> responses_ar | fr \<Rightarrow> responses_fr)"

text \<open>
  \<open>responses[language][intent.intent]\<close> is a property read on an object literal: an own
  property gives its string, a name of \<open>Object.prototype\<close> gives the inherited function
  or object, any other name gives \<open>undefined\<close> (here \<open>None\<close>).
\<close>

datatype jsvalue = JSString jsstring | JSInherited jsstring

definition objectPrototypeKeys :: "jsstring list" where
  "objectPrototypeKeys =
     [js ''constructor'', js ''__defineGetter__'', js ''__defineSetter__'',
      js ''hasOwnProperty'', js ''__lookupGetter__'', js ''__lookupSetter__'',
      js ''isPrototypeOf'', js ''propertyIsEnumerable'', js ''toString'', js ''valueOf'',
      js ''__proto__'', js ''toLocaleString'']"

definition getProperty :: "Replies \<Rightarrow> jsstring \<Rightarrow> jsvalue option" where
  "getProperty obj key =
     (if key = js ''balance'' then Some (JSString (balance obj))
      else if key = js ''recharge'' then Some (JSString (recharge obj))
      else if key = js ''plans'' then Some (JSString (plans obj))
      else if key = js ''support'' then Some (JSString (support obj))
      else if key = js ''greeting'' then Some (JSString (greeting obj))
      else if key = js ''unknown'' then Some (JSString (unknown obj))
      else if List.member objectPrototypeKeys key then Some (JSInherited key)
      else None)"

fun truthy :: "jsvalue \<Rightarrow> bool" where
  "truthy (JSString s) = (s \<noteq> [])"
| "truthy (JSInherited k) = True"

definition generateResponse :: "ServiceIntent \<Rightarrow> language \<Rightarrow> jsvalue" where
  "generateResponse intent' language =
     (if js_lt (ServiceIntent.confidence intent') (Finite (1 / 10))
      then JSString (unknown (responses language))
      else (case getProperty (responses language) (ServiceIntent.intent intent') of
              Some v \<Rightarrow> if truthy v then v else JSString (unknown (responses language))
            | None \<Rightarrow> JSString (unknown (responses language))))"

section \<open>src/storage.ts: the class MemStorage\<close>

text \<open>
  \<open>botResponses\<close> is a \<open>Map\<close> from id to record; it is kept as an association list in
  insertion order, which is the order of \<open>Map.prototype.values\<close>.  \<open>set\<close> on a present
  key replaces the value where it stands and appends otherwise (\<open>AList.update\<close>);
  \<open>delete\<close> removes the key and tells whether it was there.
\<close>

record MemStorage =
  botResponses :: "(jsstring \<times> BotResponse) list"

definition default_balance_inquiry :: InsertBotResponse where
  "default_balance_inquiry =
     \<lparr>InsertBotResponse.intent = js ''balance_inquiry'',
      keywords' = JArray
        [[0x631, 0x635, 0x64A, 0x62F],
         js ''balance'',
         js ''solde'',
         js ''credit''],
      responseAr =
        [0x64A, 0x645, 0x643, 0x646, 0x643, 0x645, 0x20, 0x627, 0x644, 0x627, 0x633, 0x62A,
           0x639, 0x644, 0x627, 0x645, 0x20, 0x639, 0x646, 0x20, 0x631, 0x635, 0x64A, 0x62F,
           0x643, 0x645, 0x20, 0x639, 0x628, 0x631, 0x20, 0x627, 0x644, 0x627, 0x62A, 0x635,
           0x627, 0x644, 0x20, 0x628, 0x640, 0x20, 0x2A] @ js ''555'' @ [0x23, 0x20, 0x623,
           0x648, 0x20, 0x639, 0x628, 0x631, 0x20, 0x62A, 0x637, 0x628, 0x64A, 0x642, 0x20,
           0x645, 0x648, 0x628, 0x644, 0x64A, 0x633],
      responseFr =
        js ''Vous pouvez consulter votre solde en composant '' @ [0x2A] @ js ''555''
          @ [0x23] @ js '' ou via l'' @ [0x27] @ js ''application Mobilis'',
      category = js ''balance'',
      isActive = True\<rparr>"

definition default_recharge :: InsertBotResponse where
  "default_recharge =
     \<lparr>InsertBotResponse.intent = js ''recharge'',
      keywords' = JArray
        [[0x634, 0x62D, 0x646],
         js ''recharge'',
         js ''rechargement'',
         js ''credit''],
      responseAr =
        [0x64A, 0x645, 0x643, 0x646, 0x643, 0x645, 0x20, 0x634, 0x62D, 0x646, 0x20, 0x631,
           0x635, 0x64A, 0x62F, 0x643, 0x645, 0x20, 0x639, 0x628, 0x631, 0x20, 0x628, 0x637,
           0x627, 0x642, 0x627, 0x62A, 0x20, 0x627, 0x644, 0x634, 0x62D, 0x646, 0x20, 0x623,
           0x648, 0x20, 0x639, 0x628, 0x631, 0x20, 0x627, 0x644, 0x62A, 0x637, 0x628, 0x64A,
           0x642, 0x20, 0x627, 0x644, 0x645, 0x635, 0x631, 0x641, 0x64A],
      responseFr =
        js ''Vous pouvez recharger via les cartes de recharge ou l'' @ [0x27]
          @ js ''application bancaire'',
      category = js ''recharge'',
      isActive = True\<rparr>"

definition default_plans :: InsertBotResponse where
  "default_plans =
     \<lparr>InsertBotResponse.intent = js ''plans'',
      keywords' = JArray
        [[0x628, 0x627, 0x642, 0x629],
         [0x628, 0x627, 0x642, 0x627, 0x62A],
         js ''forfait'',
         js ''plans'',
         js ''abonnement''],
      responseAr =
        [0x644, 0x62F, 0x64A, 0x646, 0x627, 0x20, 0x628, 0x627, 0x642, 0x627, 0x62A, 0x20,
           0x645, 0x62A, 0x646, 0x648, 0x639, 0x629, 0x20, 0x644, 0x644, 0x645, 0x643,
           0x627, 0x644, 0x645, 0x627, 0x62A, 0x20, 0x648, 0x627, 0x644, 0x625, 0x646,
           0x62A, 0x631, 0x646, 0x62A, 0x2E, 0x20, 0x627, 0x62A, 0x635, 0x644, 0x20, 0x628,
           0x640] @ js '' 600 '' @ [0x644, 0x644, 0x645, 0x632, 0x64A, 0x62F, 0x20, 0x645,
           0x646, 0x20, 0x627, 0x644, 0x62A, 0x641, 0x627, 0x635, 0x64A, 0x644],
      responseFr =
        js ''Nous avons diverses offres d'' @ [0x27]
          @ js ''appels et internet. Appelez le 600 pour plus de d'' @ [0xE9] @ js ''tails'',
      category = js ''plans'',
      isActive = True\<rparr>"

definition default_support :: InsertBotResponse where
  "default_support =
     \<lparr>InsertBotResponse.intent = js ''support'',
      keywords' = JArray
        [[0x645, 0x633, 0x627, 0x639, 0x62F, 0x629],
         [0x62F, 0x639, 0x645],
         js ''aide'',
         js ''support'',
         js ''probl'' @ [0xE8, 0x6D, 0x65],
         [0x645, 0x634, 0x643, 0x644, 0x629]],
      responseAr =
        [0x641, 0x631, 0x64A, 0x642, 0x20, 0x627, 0x644, 0x62F, 0x639, 0x645, 0x20, 0x627,
           0x644, 0x641, 0x646, 0x64A, 0x20, 0x645, 0x62A, 0x627, 0x62D, 0x20, 0x639, 0x644,
           0x649] @ js '' 600 '' @ [0x645, 0x646] @ js '' 8:00 '' @ [0x625, 0x644, 0x649]
          @ js '' 20:00'',
      responseFr =
        js ''Le support technique est disponible au 600 de 8h00 '' @ [0xE0] @ js '' 20h00'',
      category = js ''support'',
      isActive = True\<rparr>"

definition default_greeting :: InsertBotResponse where
  "default_greeting =
     \<lparr>InsertBotResponse.intent = js ''greeting'',
      keywords' = JArray
        [[0x645, 0x631, 0x62D, 0x628, 0x627],
         [0x623, 0x647, 0x644, 0x627],
         [0x627, 0x644, 0x633, 0x644, 0x627, 0x645],
         js ''bonjour'',
         js ''salut'',
         js ''hello''],
      responseAr =
        [0x645, 0x631, 0x62D, 0x628, 0x627, 0x64B, 0x20, 0x628, 0x643, 0x645, 0x20, 0x641,
           0x64A, 0x20, 0x62E, 0x62F, 0x645, 0x629, 0x20, 0x639, 0x645, 0x644, 0x627, 0x621,
           0x20, 0x645, 0x648, 0x628, 0x644, 0x64A, 0x633, 0x21, 0x20, 0x643, 0x64A, 0x641,
           0x20, 0x64A, 0x645, 0x643, 0x646, 0x646, 0x64A, 0x20, 0x645, 0x633, 0x627, 0x639,
           0x62F, 0x62A, 0x643, 0x645, 0x61F],
      responseFr =
        js ''Bienvenue chez Mobilis! Comment puis-je vous aider?'',
      category = js ''general'',
      isActive = True\<rparr>"

definition defaultResponses :: "InsertBotResponse list" where
  "defaultResponses =
     [default_balance_inquiry, default_recharge, default_plans, default_support, default_greeting]"

definition withId :: "InsertBotResponse \<Rightarrow> jsstring \<Rightarrow> BotResponse" where
  "withId response ident =
     \<lparr>InsertBotResponse.intent = InsertBotResponse.intent response,
      keywords' = InsertBotResponse.keywords' response,
      responseAr = responseAr response,
      responseFr = responseFr response,
      category = InsertBotResponse.category response,
      isActive = isActive response,
      id' = ident\<rparr>"

text \<open>
  \<open>initializeDefaultResponses\<close> draws one \<open>randomUUID()\<close> for each of the five
  defaults; the ids drawn are the argument \<open>uuids\<close>, in the order of the draws.
\<close>

definition initializeDefaultResponses :: "jsstring list \<Rightarrow> MemStorage \<Rightarrow> MemStorage" where
  "initializeDefaultResponses uuids this =
     fold (\<lambda>(response, ident) this.
             this\<lparr>botResponses := AList.update ident (withId response ident) (botResponses this)\<rparr>)
          (zip defaultResponses uuids) this"

definition newMemStorage :: "jsstring list \<Rightarrow> MemStorage" where
  "newMemStorage uuids = initializeDefaultResponses uuids \<lparr>botResponses = []\<rparr>"

definition getAllBotResponses :: "MemStorage \<Rightarrow> BotResponse list \<times> MemStorage" where
  "getAllBotResponses this = (filter isActive (map snd (botResponses this)), this)"

definition getBotResponseByIntent ::
  "jsstring \<Rightarrow> MemStorage \<Rightarrow> BotResponse option \<times> MemStorage" where
  "getBotResponseByIntent intent' this =
     (find (\<lambda>r. InsertBotResponse.intent r = intent' \<and> isActive r) (map snd (botResponses this)),
      this)"

definition deleteBotResponse :: "jsstring \<Rightarrow> MemStorage \<Rightarrow> bool \<times> MemStorage" where
  "deleteBotResponse ident this =
     (List.member (map fst (botResponses this)) ident,
      this\<lparr>botResponses := AList.delete ident (botResponses this)\<rparr>)"

section \<open>src/storage.ts, from line 466: the helper functions of the routes\<close>

definition keywordsOf :: "jsonb \<Rightarrow> jsstring list" where
  "keywordsOf k = (case k of JArray ks \<Rightarrow> ks | JOther \<Rightarrow> [])"

text \<open>\<open>lower text\<close> is \<open>text.toLowerCase()\<close>; the text is not trimmed.\<close>

definition analyzeIntentWith ::
  "(jsstring \<Rightarrow> jsstring) \<Rightarrow> jsstring \<Rightarrow> MemStorage \<Rightarrow> ServiceIntent \<times> MemStorage" where
  "analyzeIntentWith lower text storage =
     (let normalizedText = lower text;
          (responses, storage) = getAllBotResponses storage;
          bestMatch = unknownMatch
      in (fold (\<lambda>response.
                  fold (considerKeywordWith lower normalizedText text
                          (InsertBotResponse.intent response)
                          (InsertBotResponse.category response))
                       (keywordsOf (InsertBotResponse.keywords' response)))
               responses bestMatch,
          storage))"

abbreviation analyzeIntent :: "jsstring \<Rightarrow> MemStorage \<Rightarrow> ServiceIntent \<times> MemStorage" where
  "analyzeIntent \<equiv> analyzeIntentWith toLowerCase"

definition unknownAr :: jsstring where
  "unknownAr =
     [0x639, 0x630, 0x631, 0x627, 0x64B, 0x60C, 0x20, 0x644, 0x645, 0x20, 0x623, 0x641,
        0x647, 0x645, 0x20, 0x627, 0x633, 0x62A, 0x641, 0x633, 0x627, 0x631, 0x643, 0x645,
        0x2E, 0x20, 0x64A, 0x645, 0x643, 0x646, 0x643, 0x645, 0x20, 0x627, 0x644, 0x62A,
        0x648, 0x627, 0x635, 0x644, 0x20, 0x645, 0x639, 0x20, 0x62E, 0x62F, 0x645, 0x629,
        0x20, 0x627, 0x644, 0x639, 0x645, 0x644, 0x627, 0x621, 0x20, 0x639, 0x644, 0x649]
       @ js '' 600''"

definition unknownFr :: jsstring where
  "unknownFr =
     [0x44, 0xE9] @ js ''sol'' @ [0xE9] @ js '', je n'' @ [0x27]
       @ js ''ai pas compris votre demande. Vous pouvez contacter le service client au 600''"

text \<open>The result \<open>null\<close> is \<open>None\<close>.\<close>

definition generateBotResponse ::
  "ServiceIntent \<Rightarrow> language \<Rightarrow> MemStorage \<Rightarrow> jsstring option \<times> MemStorage" where
  "generateBotResponse intent' language storage =
     (if js_lt (ServiceIntent.confidence intent') (Finite (1 / 10))
      then (Some (if language = ar then unknownAr else unknownFr), storage)
      else (let (response, storage) = getBotResponseByIntent (ServiceIntent.intent intent') storage
            in case response of
                 None \<Rightarrow> (None, storage)
               | Some r \<Rightarrow> (Some (if language = ar then responseAr r else responseFr r), storage)))"

section \<open>The callers of the route helpers\<close>

text \<open>
  The route for a user message and \<open>handleFacebookMessage\<close> both test the result of
  \<open>generateBotResponse\<close> with \<open>if (response)\<close> before they build the bot message:
  \<open>null\<close> and the empty string build none.  \<open>botMessage\<close> is the text of the message
  that is built.
\<close>

definition botMessage :: "jsstring option \<Rightarrow> jsstring option" where
  "botMessage response =
     (case response of None \<Rightarrow> None | Some r \<Rightarrow> if r = [] then None else Some r)"

section \<open>Notions used to state the properties\<close>

text \<open>
  \<open>x >= y\<close> on numbers, which the sources do not use but the threshold is described
  with.
\<close>

definition js_ge :: "number \<Rightarrow> number \<Rightarrow> bool" where
  "js_ge x y = (js_gt x y \<or> (x = y \<and> x \<noteq> NaN))"

text \<open>
  The catalog either function scans, as the list of its entries in the order of the scan:
  the intent, the category and the keywords of each.  For \<open>MemStorage\<close> these are the
  active responses only, as \<open>getAllBotResponses\<close> returns them.
\<close>

type_synonym entry = "jsstring \<times> jsstring \<times> jsstring list"

definition entryIntent :: "entry \<Rightarrow> jsstring" where
  "entryIntent e = fst e"

definition entryCategory :: "entry \<Rightarrow> jsstring" where
  "entryCategory e = fst (snd e)"

definition entryKeywords :: "entry \<Rightarrow> jsstring list" where
  "entryKeywords e = snd (snd e)"

definition MobilisChatBot_catalog :: "MobilisChatBot \<Rightarrow> entry list" where
  "MobilisChatBot_catalog this =
     map (\<lambda>(intentName, intentData).
            (intentName, PredefinedIntent.category intentData,
             PredefinedIntent.keywords' intentData))
         (predefinedIntents this)"

definition MemStorage_catalog :: "MemStorage \<Rightarrow> entry list" where
  "MemStorage_catalog storage =
     map (\<lambda>response.
            (InsertBotResponse.intent response, InsertBotResponse.category response,
             keywordsOf (InsertBotResponse.keywords' response)))
         (fst (getAllBotResponses storage))"

text \<open>
  The storage of the round-trip scenario: one active response for \<open>balance_inquiry\<close>
  with the keywords \<open>balance\<close> and \<open>solde\<close>, under any id and with any two replies.
\<close>

definition scenarioResponse :: "jsstring \<Rightarrow> jsstring \<Rightarrow> jsstring \<Rightarrow> BotResponse" where
  "scenarioResponse ident replyAr replyFr =
     \<lparr>InsertBotResponse.intent = js ''balance_inquiry'',
      keywords' = JArray [js ''balance'', js ''solde''],
      responseAr = replyAr,
      responseFr = replyFr,
      category = js ''balance'',
      isActive = True,
      id' = ident\<rparr>"

definition scenarioStorage :: "jsstring \<Rightarrow> jsstring \<Rightarrow> jsstring \<Rightarrow> MemStorage" where
  "scenarioStorage ident replyAr replyFr =
     \<lparr>botResponses = [(ident, scenarioResponse ident replyAr replyFr)]\<rparr>"

text \<open>
  A keyword matches when its lower-cased form occurs in the normalized message, whatever
  the lower-casing function is.  Its score is its own length over the length of the
  message as received; \<open>ratio\<close> is only used for a message that is not empty.
\<close>

definition matchesWith :: "(jsstring \<Rightarrow> jsstring) \<Rightarrow> jsstring \<Rightarrow> jsstring \<Rightarrow> bool" where
  "matchesWith lower normalizedMessage keyword = js_includes normalizedMessage (lower keyword)"

abbreviation matches :: "jsstring \<Rightarrow> jsstring \<Rightarrow> bool" where
  "matches \<equiv> matchesWith toLowerCase"

definition ratio :: "jsstring \<Rightarrow> jsstring \<Rightarrow> rat" where
  "ratio keyword message = of_nat (length keyword) / of_nat (length message)"

definition matchingKeywordsWith ::
  "(jsstring \<Rightarrow> jsstring) \<Rightarrow> jsstring \<Rightarrow> entry list \<Rightarrow> jsstring list" where
  "matchingKeywordsWith lower normalizedMessage catalog =
     filter (matchesWith lower normalizedMessage) (concat (map entryKeywords catalog))"

abbreviation matchingKeywords :: "jsstring \<Rightarrow> entry list \<Rightarrow> jsstring list" where
  "matchingKeywords \<equiv> matchingKeywordsWith toLowerCase"

definition selected :: "entry \<Rightarrow> jsstring \<Rightarrow> jsstring \<Rightarrow> ServiceIntent" where
  "selected e keyword message =
     \<lparr>ServiceIntent.intent = entryIntent e, confidence = Finite (ratio keyword message),
      category = entryCategory e\<rparr>"

text \<open>
  The scan as one loop over the pairs of an entry and one of its keywords, in catalog
  order.
\<close>

type_synonym candidate = "entry \<times> jsstring"

definition candidates :: "entry list \<Rightarrow> candidate list" where
  "candidates catalog = concat (map (\<lambda>e. map (Pair e) (entryKeywords e)) catalog)"

definition tryCandidateWith ::
  "(jsstring \<Rightarrow> jsstring) \<Rightarrow> jsstring \<Rightarrow> jsstring \<Rightarrow> candidate \<Rightarrow> ServiceIntent \<Rightarrow> ServiceIntent" where
  "tryCandidateWith lower normalizedMessage message c =
     considerKeywordWith lower normalizedMessage message (entryIntent (fst c))
       (entryCategory (fst c)) (snd c)"

abbreviation tryCandidate :: "jsstring \<Rightarrow> jsstring \<Rightarrow> candidate \<Rightarrow> ServiceIntent \<Rightarrow> ServiceIntent" where
  "tryCandidate \<equiv> tryCandidateWith toLowerCase"

definition chosen :: "jsstring \<Rightarrow> candidate \<Rightarrow> ServiceIntent" where
  "chosen message c =
     \<lparr>ServiceIntent.intent = entryIntent (fst c),
      confidence = js_div (length (snd c)) (length message),
      category = entryCategory (fst c)\<rparr>"

section \<open>Strings: substrings, lower case, trimming\<close>

lemma startsWith_iff: "startsWith s k \<longleftrightarrow> (\<exists>q. s = k @ q)"
  by (induction s k rule: startsWith.induct) auto

lemma js_includes_iff: "js_includes s k \<longleftrightarrow> (\<exists>p q. s = p @ k @ q)"
proof (induction s)
  case Nil
  then show ?case by simp
next
  case (Cons d s)
  show ?case
  proof
    assume "js_includes (d # s) k"
    then consider "startsWith (d # s) k" | "js_includes s k" by auto
    then show "\<exists>p q. d # s = p @ k @ q"
    proof cases
      case 1
      then obtain q where "d # s = k @ q" by (auto simp: startsWith_iff)
      then have "d # s = [] @ k @ q" by simp
      then show ?thesis by blast
    next
      case 2
      then obtain p q where "s = p @ k @ q" using Cons.IH by blast
      then have "d # s = (d # p) @ k @ q" by simp
      then show ?thesis by blast
    qed
  next
    assume "\<exists>p q. d # s = p @ k @ q"
    then obtain p q where pq: "d # s = p @ k @ q" by blast
    show "js_includes (d # s) k"
    proof (cases p)
      case Nil
      with pq have "startsWith (d # s) k" by (auto simp: startsWith_iff)
      then show ?thesis by simp
    next
      case (Cons e p')
      with pq have "s = p' @ k @ q" by simp
      then have "js_includes s k" using Cons.IH by blast
      then show ?thesis by simp
    qed
  qed
qed

lemma js_includes_length: "js_includes s k \<Longrightarrow> length k \<le> length s"
  by (auto simp: js_includes_iff)

lemma js_includes_Nil [simp]: "js_includes s []"
  by (induction s) simp_all

lemma length_lowerUnit: "1 \<le> length (lowerUnit c)"
  by (simp add: lowerUnit_def)

lemma length_toLowerCase: "length s \<le> length (toLowerCase s)"
proof (induction s)
  case Nil
  then show ?case by (simp add: toLowerCase_def)
next
  case (Cons c s)
  have "toLowerCase (c # s) = lowerUnit c @ toLowerCase s" by (simp add: toLowerCase_def)
  with Cons length_lowerUnit [of c] show ?case by simp
qed

lemma toLowerCase_Nil [simp]: "toLowerCase [] = []"
  by (simp add: toLowerCase_def)

lemma toLowerCase_eq_Nil: "toLowerCase s = [] \<longleftrightarrow> s = []"
  using length_toLowerCase [of s] by auto

lemma trim_Nil [simp]: "trim [] = []"
  by (simp add: trim_def)

lemma length_trim: "length (trim s) \<le> length s"
proof -
  have "length (trim s) = length (dropWhile isWhiteSpace (rev (dropWhile isWhiteSpace s)))"
    by (simp add: trim_def)
  also have "\<dots> \<le> length (rev (dropWhile isWhiteSpace s))" by (rule length_dropWhile_le)
  also have "\<dots> \<le> length s" by (simp add: length_dropWhile_le)
  finally show ?thesis .
qed

lemma trim_sublist: "\<exists>p q. s = p @ trim s @ q"
proof -
  let ?a = "takeWhile isWhiteSpace s" and ?b = "dropWhile isWhiteSpace s"
  let ?c = "takeWhile isWhiteSpace (rev ?b)"
  have "rev ?b = ?c @ dropWhile isWhiteSpace (rev ?b)" by simp
  then have "?b = rev (dropWhile isWhiteSpace (rev ?b)) @ rev ?c"
    by (metis rev_append rev_rev_ident)
  then have "?b = trim s @ rev ?c" by (simp add: trim_def)
  moreover have "s = ?a @ ?b" by simp
  ultimately have "s = ?a @ trim s @ rev ?c" by simp
  then show ?thesis by blast
qed

lemma js_includes_trim: "js_includes (trim s) k \<Longrightarrow> js_includes s k"
proof -
  assume "js_includes (trim s) k"
  then obtain p q where 1: "trim s = p @ k @ q" by (auto simp: js_includes_iff)
  obtain p' q' where 2: "s = p' @ trim s @ q'" using trim_sublist by blast
  have "s = (p' @ p) @ k @ (q @ q')" by (subst 2) (simp add: 1)
  then show ?thesis unfolding js_includes_iff by blast
qed

section \<open>The scan over the candidates\<close>

lemma js_div_ratio: "m \<noteq> [] \<Longrightarrow> js_div (length k) (length m) = Finite (ratio k m)"
  by (simp add: js_div_def ratio_def)

lemma tryCandidate_eq:
  "tryCandidateWith lower nm m c best =
     (if matchesWith lower nm (snd c) \<and> js_gt (js_div (length (snd c)) (length m)) (confidence best)
      then chosen m c else best)"
  by (simp add: tryCandidateWith_def considerKeywordWith_def matchesWith_def chosen_def Let_def)

lemma confidence_chosen [simp]: "confidence (chosen m c) = js_div (length (snd c)) (length m)"
  by (simp add: chosen_def)

lemma scan_unchanged:
  "(\<And>c. c \<in> set cs \<Longrightarrow> matchesWith lower nm (snd c) \<Longrightarrow>
        \<not> js_gt (js_div (length (snd c)) (length m)) (confidence best))
   \<Longrightarrow> fold (tryCandidateWith lower nm m) cs best = best"
proof (induction cs)
  case Nil
  then show ?case by simp
next
  case (Cons c cs)
  have "tryCandidateWith lower nm m c best = best"
    using Cons.prems [of c] by (auto simp: tryCandidate_eq)
  moreover have "fold (tryCandidateWith lower nm m) cs best = best"
    using Cons.prems by (intro Cons.IH) auto
  ultimately show ?case by simp
qed

lemma scan_below:
  assumes "m \<noteq> []"
    and "confidence best = Finite b" and "b < q"
    and "\<And>c. c \<in> set cs \<Longrightarrow> matchesWith lower nm (snd c) \<Longrightarrow> ratio (snd c) m < q"
  shows "\<exists>b'. confidence (fold (tryCandidateWith lower nm m) cs best) = Finite b' \<and> b' < q"
  using assms(2-)
proof (induction cs arbitrary: best b)
  case Nil
  then show ?case by simp
next
  case (Cons c cs)
  let ?best' = "tryCandidateWith lower nm m c best"
  have "\<exists>b'. confidence ?best' = Finite b' \<and> b' < q"
  proof (cases "matchesWith lower nm (snd c) \<and> js_gt (js_div (length (snd c)) (length m)) (confidence best)")
    case True
    then have "?best' = chosen m c" by (simp add: tryCandidate_eq)
    moreover have "ratio (snd c) m < q" using Cons.prems(3) True by simp
    ultimately show ?thesis using assms(1) by (simp add: js_div_ratio)
  next
    case False
    then have "?best' = best" by (auto simp add: tryCandidate_eq)
    then show ?thesis using Cons.prems(1,2) by simp
  qed
  then obtain b' where b': "confidence ?best' = Finite b'" "b' < q" by blast
  have "\<exists>b''. confidence (fold (tryCandidateWith lower nm m) cs ?best') = Finite b'' \<and> b'' < q"
    using b' Cons.prems(3) by (intro Cons.IH) auto
  then show ?case by simp
qed

lemma ratio_less: "m \<noteq> [] \<Longrightarrow> ratio k m < ratio k' m \<longleftrightarrow> length k < length k'"
  by (simp add: ratio_def divide_less_cancel)

lemma ratio_le: "m \<noteq> [] \<Longrightarrow> ratio k m \<le> ratio k' m \<longleftrightarrow> length k \<le> length k'"
  by (simp add: ratio_def divide_le_cancel)

lemma ratio_pos: "m \<noteq> [] \<Longrightarrow> 0 < ratio k m \<longleftrightarrow> k \<noteq> []"
  by (simp add: ratio_def zero_less_divide_iff)

lemma scan_first_max:
  assumes m: "m \<noteq> []"
    and c: "matchesWith lower nm (snd c)"
    and best: "confidence best = Finite b" "b < ratio (snd c) m"
    and pre: "\<And>c'. c' \<in> set pre \<Longrightarrow> matchesWith lower nm (snd c') \<Longrightarrow> length (snd c') < length (snd c)"
    and post: "\<And>c'. c' \<in> set post \<Longrightarrow> matchesWith lower nm (snd c') \<Longrightarrow> length (snd c') \<le> length (snd c)"
  shows "fold (tryCandidateWith lower nm m) (pre @ c # post) best = chosen m c"
proof -
  let ?b1 = "fold (tryCandidateWith lower nm m) pre best"
  have "\<exists>b'. confidence ?b1 = Finite b' \<and> b' < ratio (snd c) m"
    using m best pre by (intro scan_below) (auto simp: ratio_less)
  then obtain b' where b': "confidence ?b1 = Finite b'" "b' < ratio (snd c) m" by blast
  have step: "tryCandidateWith lower nm m c ?b1 = chosen m c"
    using c b' m by (simp add: tryCandidate_eq js_div_ratio)
  have "fold (tryCandidateWith lower nm m) post (chosen m c) = chosen m c"
  proof (rule scan_unchanged)
    fix c' assume "c' \<in> set post" "matchesWith lower nm (snd c')"
    then have "length (snd c') \<le> length (snd c)" by (rule post)
    then have "\<not> ratio (snd c) m < ratio (snd c') m" using m by (simp add: ratio_less)
    then show "\<not> js_gt (js_div (length (snd c')) (length m)) (confidence (chosen m c))"
      using m by (simp add: js_div_ratio)
  qed
  with step show ?thesis by simp
qed

lemma first_max_split:
  fixes f :: "'a \<Rightarrow> nat"
  assumes "\<exists>c \<in> set cs. P c"
  shows "\<exists>pre c post. cs = pre @ c # post \<and> P c
           \<and> (\<forall>c' \<in> set pre. P c' \<longrightarrow> f c' < f c)
           \<and> (\<forall>c' \<in> set post. P c' \<longrightarrow> f c' \<le> f c)"
proof -
  let ?S = "f ` {c \<in> set cs. P c}"
  have fin: "finite ?S" by simp
  have ne: "?S \<noteq> {}" using assms by auto
  define L where "L = Max ?S"
  have "L \<in> ?S" unfolding L_def using fin ne by (rule Max_in)
  then have ex: "\<exists>c \<in> set cs. P c \<and> f c = L" by auto
  have le: "f c' \<le> L" if "c' \<in> set cs" "P c'" for c'
    unfolding L_def using that by (intro Max_ge) auto
  from split_list_first_prop [OF ex]
  obtain pre c post where sp: "cs = pre @ c # post" "P c \<and> f c = L"
    "\<forall>c' \<in> set pre. \<not> (P c' \<and> f c' = L)" by blast
  have "\<forall>c' \<in> set pre. P c' \<longrightarrow> f c' < f c"
  proof (intro ballI impI)
    fix c' assume a: "c' \<in> set pre" "P c'"
    then have "f c' \<le> L" using le sp(1) by simp
    moreover have "f c' \<noteq> L" using a sp(3) by blast
    ultimately show "f c' < f c" using sp(2) by simp
  qed
  moreover have "\<forall>c' \<in> set post. P c' \<longrightarrow> f c' \<le> f c"
    using le sp(1,2) by simp
  ultimately show ?thesis using sp(1,2) by blast
qed

lemma js_gt_trans: "js_gt x y \<Longrightarrow> js_gt y z \<Longrightarrow> js_gt x z"
  by (cases x; cases y; cases z) auto

lemma scan_invariant:
  assumes "best = unknownMatch \<or> js_gt (confidence best) (Finite 0) \<and> (\<exists>c \<in> A. matchesWith lower nm (snd c) \<and> best = chosen m c)"
    and "set cs \<subseteq> A"
  shows "fold (tryCandidateWith lower nm m) cs best = unknownMatch
         \<or> js_gt (confidence (fold (tryCandidateWith lower nm m) cs best)) (Finite 0)
           \<and> (\<exists>c \<in> A. matchesWith lower nm (snd c) \<and> fold (tryCandidateWith lower nm m) cs best = chosen m c)"
  using assms
proof (induction cs arbitrary: best)
  case Nil
  then show ?case by simp
next
  case (Cons c cs)
  let ?best' = "tryCandidateWith lower nm m c best"
  have "?best' = unknownMatch \<or> js_gt (confidence ?best') (Finite 0) \<and> (\<exists>c \<in> A. matchesWith lower nm (snd c) \<and> ?best' = chosen m c)"
  proof (cases "matchesWith lower nm (snd c) \<and> js_gt (js_div (length (snd c)) (length m)) (confidence best)")
    case True
    then have eq: "?best' = chosen m c" by (simp add: tryCandidate_eq)
    have "js_gt (confidence (chosen m c)) (Finite 0)"
    proof -
      from Cons.prems(1) have "confidence best = Finite 0 \<or> js_gt (confidence best) (Finite 0)"
        by (auto simp: unknownMatch_def)
      then show ?thesis using True by (auto intro: js_gt_trans)
    qed
    moreover have "c \<in> A" using Cons.prems(2) by simp
    ultimately show ?thesis using eq True by auto
  next
    case False
    then have "?best' = best" by (auto simp add: tryCandidate_eq)
    then show ?thesis using Cons.prems(1) by simp
  qed
  moreover have "set cs \<subseteq> A" using Cons.prems(2) by simp
  ultimately have "fold (tryCandidateWith lower nm m) cs ?best' = unknownMatch
         \<or> js_gt (confidence (fold (tryCandidateWith lower nm m) cs ?best')) (Finite 0)
           \<and> (\<exists>c \<in> A. matchesWith lower nm (snd c) \<and> fold (tryCandidateWith lower nm m) cs ?best' = chosen m c)"
    by (rule Cons.IH)
  then show ?case by simp
qed

lemma fold_keywords:
  "fold (considerKeywordWith lower nm m (entryIntent e) (entryCategory e)) ks best =
   fold (tryCandidateWith lower nm m) (map (Pair e) ks) best"
  by (simp add: fold_map tryCandidateWith_def comp_def)

lemma candidates_Nil [simp]: "candidates [] = []"
  by (simp add: candidates_def)

lemma candidates_Cons: "candidates (e # es) = map (Pair e) (entryKeywords e) @ candidates es"
  by (simp add: candidates_def)

lemma candidates_append: "candidates (xs @ ys) = candidates xs @ candidates ys"
  by (simp add: candidates_def)

lemma in_candidates: "c \<in> set (candidates es) \<longleftrightarrow> fst c \<in> set es \<and> snd c \<in> set (entryKeywords (fst c))"
  by (cases c) (auto simp: candidates_def)

lemma scan_candidates:
  "fold (\<lambda>e. fold (considerKeywordWith lower nm m (entryIntent e) (entryCategory e)) (entryKeywords e)) es best =
   fold (tryCandidateWith lower nm m) (candidates es) best"
  by (induction es arbitrary: best) (simp_all add: candidates_Cons fold_keywords)

lemma analyzeIntent_scan:
  "fst (analyzeIntentWith lower text storage) =
   fold (tryCandidateWith lower (lower text) text) (candidates (MemStorage_catalog storage)) unknownMatch"
proof -
  have "fst (analyzeIntentWith lower text storage) =
        fold (\<lambda>e. fold (considerKeywordWith lower (lower text) text (entryIntent e) (entryCategory e))
                        (entryKeywords e))
             (MemStorage_catalog storage) unknownMatch"
    by (simp add: analyzeIntentWith_def MemStorage_catalog_def getAllBotResponses_def fold_map comp_def
        entryIntent_def entryCategory_def entryKeywords_def)
  then show ?thesis by (simp only: scan_candidates)
qed

lemma MobilisChatBot_analyzeIntent_scan:
  "fst (MobilisChatBot_analyzeIntentWith lower message this) =
   fold (tryCandidateWith lower (trim (lower message)) message)
        (candidates (MobilisChatBot_catalog this)) unknownMatch"
proof -
  have "fst (MobilisChatBot_analyzeIntentWith lower message this) =
        fold (\<lambda>e. fold (considerKeywordWith lower (trim (lower message)) message (entryIntent e)
                          (entryCategory e))
                        (entryKeywords e))
             (MobilisChatBot_catalog this) unknownMatch"
    by (simp add: MobilisChatBot_analyzeIntentWith_def MobilisChatBot_catalog_def fold_map comp_def
        entryIntent_def entryCategory_def entryKeywords_def case_prod_unfold)
  then show ?thesis by (simp only: scan_candidates)
qed

lemma chosen_selected: "m \<noteq> [] \<Longrightarrow> chosen m (e, k) = selected e k m"
  by (simp add: chosen_def selected_def js_div_ratio)

lemma set_matchingKeywords:
  "set (matchingKeywordsWith lower nm cat) = {k. \<exists>e \<in> set cat. k \<in> set (entryKeywords e) \<and> matchesWith lower nm k}"
  by (auto simp: matchingKeywordsWith_def)

lemma scan_max:
  assumes m: "m \<noteq> []"
    and e: "e \<in> set cat" "k \<in> set (entryKeywords e)" "k \<noteq> []" "matchesWith lower nm k"
  shows "\<exists>e' \<in> set cat. \<exists>k' \<in> set (entryKeywords e'). matchesWith lower nm k'
           \<and> fold (tryCandidateWith lower nm m) (candidates cat) unknownMatch = selected e' k' m
           \<and> 0 < ratio k' m
           \<and> ratio k' m = Max ((\<lambda>k. ratio k m) ` set (matchingKeywordsWith lower nm cat))"
proof -
  let ?P = "\<lambda>c. matchesWith lower nm (snd c)"
  have "\<exists>c \<in> set (candidates cat). ?P c"
    using e by (intro bexI [of _ "(e, k)"]) (auto simp: in_candidates)
  from first_max_split [OF this, of "\<lambda>c. length (snd c)"]
  obtain pre c post where sp: "candidates cat = pre @ c # post" "matchesWith lower nm (snd c)"
    "\<forall>c' \<in> set pre. matchesWith lower nm (snd c') \<longrightarrow> length (snd c') < length (snd c)"
    "\<forall>c' \<in> set post. matchesWith lower nm (snd c') \<longrightarrow> length (snd c') \<le> length (snd c)"
    by blast
  have cin: "c \<in> set (candidates cat)" using sp(1) by simp
  have all_le: "length (snd c') \<le> length (snd c)"
    if "c' \<in> set (candidates cat)" "matchesWith lower nm (snd c')" for c'
    using that sp by (auto simp: less_imp_le)
  have "length k \<le> length (snd c)"
    using all_le [of "(e, k)"] e by (simp add: in_candidates)
  then have nonempty: "snd c \<noteq> []" using e(3) by auto
  then have pos: "0 < ratio (snd c) m" using m by (simp add: ratio_pos)
  have res: "fold (tryCandidateWith lower nm m) (pre @ c # post) unknownMatch = chosen m c"
    using m sp(2) _ pos
  proof (rule scan_first_max)
    show "confidence unknownMatch = Finite 0" by (simp add: unknownMatch_def)
  qed (use sp in auto)
  have mx: "ratio (snd c) m = Max ((\<lambda>k. ratio k m) ` set (matchingKeywordsWith lower nm cat))"
  proof (rule sym, rule Max_eqI)
    show "finite ((\<lambda>k. ratio k m) ` set (matchingKeywordsWith lower nm cat))" by simp
  next
    fix y assume "y \<in> (\<lambda>k. ratio k m) ` set (matchingKeywordsWith lower nm cat)"
    then obtain e' k' where ek: "e' \<in> set cat" "k' \<in> set (entryKeywords e')" "matchesWith lower nm k'"
      "y = ratio k' m"
      by (auto simp: set_matchingKeywords)
    then have "length k' \<le> length (snd c)" using all_le [of "(e', k')"] by (simp add: in_candidates)
    then show "y \<le> ratio (snd c) m" using m ek(4) by (simp add: ratio_le)
  next
    show "ratio (snd c) m \<in> (\<lambda>k. ratio k m) ` set (matchingKeywordsWith lower nm cat)"
      using cin sp(2) by (auto simp: set_matchingKeywords in_candidates)
  qed
  have "chosen m c = selected (fst c) (snd c) m" using chosen_selected [OF m, of "fst c" "snd c"] by simp
  with res sp(1) have "fold (tryCandidateWith lower nm m) (candidates cat) unknownMatch = selected (fst c) (snd c) m"
    by simp
  moreover have "fst c \<in> set cat" "snd c \<in> set (entryKeywords (fst c))"
    using cin by (simp_all add: in_candidates)
  ultimately show ?thesis using sp(2) pos mx by blast
qed

lemma scan_first_entry:
  assumes m: "m \<noteq> []"
    and cat: "cat = pre @ e # post"
    and k: "k \<in> set (entryKeywords e)" "k \<noteq> []" "matchesWith lower nm k"
    and before: "\<And>e' k'. e' \<in> set pre \<Longrightarrow> k' \<in> set (entryKeywords e') \<Longrightarrow> matchesWith lower nm k'
                   \<Longrightarrow> length k' < length k"
    and others: "\<And>e' k'. e' \<in> set (e # post) \<Longrightarrow> k' \<in> set (entryKeywords e') \<Longrightarrow> matchesWith lower nm k'
                   \<Longrightarrow> length k' \<le> length k"
  shows "fold (tryCandidateWith lower nm m) (candidates cat) unknownMatch = selected e k m"
proof -
  have "\<exists>x \<in> set (entryKeywords e). matchesWith lower nm x \<and> length x = length k" using k by blast
  from split_list_first_prop [OF this]
  obtain ks1 k1 ks2 where sp: "entryKeywords e = ks1 @ k1 # ks2" "matchesWith lower nm k1" "length k1 = length k"
    "\<forall>x \<in> set ks1. \<not> (matchesWith lower nm x \<and> length x = length k)" by blast
  let ?pre = "candidates pre @ map (Pair e) ks1" and ?post = "map (Pair e) ks2 @ candidates post"
  have split: "candidates cat = ?pre @ (e, k1) # ?post"
    by (simp add: cat candidates_append candidates_Cons sp(1))
  have pos: "0 < ratio k1 m" using m k(2) sp(3) by (simp add: ratio_def zero_less_divide_iff)
  have "fold (tryCandidateWith lower nm m) (?pre @ (e, k1) # ?post) unknownMatch = chosen m (e, k1)"
  proof (rule scan_first_max [OF m])
    show "matchesWith lower nm (snd (e, k1))" using sp(2) by simp
    show "confidence unknownMatch = Finite 0" by (simp add: unknownMatch_def)
    show "0 < ratio (snd (e, k1)) m" using pos by simp
  next
    fix c' assume c': "c' \<in> set ?pre" "matchesWith lower nm (snd c')"
    then consider "c' \<in> set (candidates pre)" | "fst c' = e" "snd c' \<in> set ks1" by auto
    then show "length (snd c') < length (snd (e, k1))"
    proof cases
      case 1
      then show ?thesis using before [of "fst c'" "snd c'"] c'(2) sp(3) by (simp add: in_candidates)
    next
      case 2
      then have "length (snd c') \<le> length k"
        using others [of e "snd c'"] c'(2) sp(1) by simp
      moreover have "length (snd c') \<noteq> length k" using 2 sp(4) c'(2) by blast
      ultimately show ?thesis using sp(3) by simp
    qed
  next
    fix c' assume c': "c' \<in> set ?post" "matchesWith lower nm (snd c')"
    then consider "c' \<in> set (candidates post)" | "fst c' = e" "snd c' \<in> set ks2" by auto
    then show "length (snd c') \<le> length (snd (e, k1))"
    proof cases
      case 1
      then show ?thesis using others [of "fst c'" "snd c'"] c'(2) sp(3) by (simp add: in_candidates)
    next
      case 2
      then show ?thesis using others [of e "snd c'"] c'(2) sp(1,3) by simp
    qed
  qed
  moreover have "chosen m (e, k1) = selected e k m"
    using m sp(3) by (simp add: chosen_def selected_def js_div_ratio ratio_def)
  ultimately show ?thesis using split by simp
qed

lemma scan_result:
  "fold (tryCandidateWith lower nm m) (candidates cat) unknownMatch = unknownMatch
   \<or> (\<exists>e \<in> set cat. \<exists>k \<in> set (entryKeywords e). matchesWith lower nm k
        \<and> js_gt (js_div (length k) (length m)) (Finite 0)
        \<and> fold (tryCandidateWith lower nm m) (candidates cat) unknownMatch = chosen m (e, k))"
proof -
  let ?r = "fold (tryCandidateWith lower nm m) (candidates cat) unknownMatch"
  have "?r = unknownMatch \<or> js_gt (confidence ?r) (Finite 0)
           \<and> (\<exists>c \<in> set (candidates cat). matchesWith lower nm (snd c) \<and> ?r = chosen m c)"
    by (rule scan_invariant) simp_all
  then show ?thesis
  proof
    assume "?r = unknownMatch" then show ?thesis by simp
  next
    assume "js_gt (confidence ?r) (Finite 0)
           \<and> (\<exists>c \<in> set (candidates cat). matchesWith lower nm (snd c) \<and> ?r = chosen m c)"
    then obtain c where c: "c \<in> set (candidates cat)" "matchesWith lower nm (snd c)" "?r = chosen m c"
      and gt: "js_gt (confidence ?r) (Finite 0)" by blast
    have "js_gt (js_div (length (snd c)) (length m)) (Finite 0)" using gt c(3) by simp
    moreover have "fst c \<in> set cat" "snd c \<in> set (entryKeywords (fst c))"
      using c(1) by (simp_all add: in_candidates)
    moreover have "?r = chosen m (fst c, snd c)" using c(3) by simp
    ultimately show ?thesis using c(2) by blast
  qed
qed

section \<open>The empty message\<close>

lemma matches_empty: "matches [] k \<longleftrightarrow> k = []"
  by (simp add: matchesWith_def toLowerCase_eq_Nil)

lemma scan_empty_normalized: "fold (tryCandidate [] m) cs unknownMatch = unknownMatch"
proof (rule scan_unchanged)
  fix c :: candidate
  assume "matches [] (snd c)"
  then have "snd c = []" by (simp add: matches_empty)
  then show "\<not> js_gt (js_div (length (snd c)) (length m)) (confidence unknownMatch)"
    by (simp add: js_div_def unknownMatch_def)
qed

section \<open>The threshold\<close>

lemma js_gt_asym: "js_gt x y \<Longrightarrow> \<not> js_gt y x"
  by (cases x; cases y) auto

lemma js_gt_irrefl: "\<not> js_gt x x"
  by (cases x) auto

lemma js_ge_not_lt: "js_ge x y \<Longrightarrow> \<not> js_lt x y"
  by (auto simp: js_ge_def js_lt_def js_gt_irrefl dest: js_gt_asym)

lemma getBotResponseByIntent_scenario:
  "fst (getBotResponseByIntent (js ''balance_inquiry'') (scenarioStorage u a f)) =
   Some (scenarioResponse u a f)"
  by (simp add: getBotResponseByIntent_def scenarioStorage_def scenarioResponse_def)

section \<open>Evaluation on given inputs\<close>

lemma MemStorage_catalog_scenario:
  "MemStorage_catalog (scenarioStorage u a f) =
     [(js ''balance_inquiry'', js ''balance'', [js ''balance'', js ''solde''])]"
  by (simp add: MemStorage_catalog_def getAllBotResponses_def keywordsOf_def scenarioStorage_def
      scenarioResponse_def)

section \<open>The default storage and the catalog of mobilisBot\<close>

lemma default_balance_inquiry_fields:
  "InsertBotResponse.intent default_balance_inquiry = js ''balance_inquiry''"
  "InsertBotResponse.keywords' default_balance_inquiry = JArray
     [[0x631, 0x635, 0x64A, 0x62F],
      js ''balance'',
      js ''solde'',
      js ''credit'']"
  "InsertBotResponse.category default_balance_inquiry = js ''balance''"
  "isActive default_balance_inquiry"
  by (simp_all add: default_balance_inquiry_def)

lemma default_recharge_fields:
  "InsertBotResponse.intent default_recharge = js ''recharge''"
  "InsertBotResponse.keywords' default_recharge = JArray
     [[0x634, 0x62D, 0x646],
      js ''recharge'',
      js ''rechargement'',
      js ''credit'']"
  "InsertBotResponse.category default_recharge = js ''recharge''"
  "isActive default_recharge"
  by (simp_all add: default_recharge_def)

lemma default_plans_fields:
  "InsertBotResponse.intent default_plans = js ''plans''"
  "InsertBotResponse.keywords' default_plans = JArray
     [[0x628, 0x627, 0x642, 0x629],
      [0x628, 0x627, 0x642, 0x627, 0x62A],
      js ''forfait'',
      js ''plans'',
      js ''abonnement'']"
  "InsertBotResponse.category default_plans = js ''plans''"
  "isActive default_plans"
  by (simp_all add: default_plans_def)

lemma default_support_fields:
  "InsertBotResponse.intent default_support = js ''support''"
  "InsertBotResponse.keywords' default_support = JArray
     [[0x645, 0x633, 0x627, 0x639, 0x62F, 0x629],
      [0x62F, 0x639, 0x645],
      js ''aide'',
      js ''support'',
      js ''probl'' @ [0xE8, 0x6D, 0x65],
      [0x645, 0x634, 0x643, 0x644, 0x629]]"
  "InsertBotResponse.category default_support = js ''support''"
  "isActive default_support"
  by (simp_all add: default_support_def)

lemma default_greeting_fields:
  "InsertBotResponse.intent default_greeting = js ''greeting''"
  "InsertBotResponse.keywords' default_greeting = JArray
     [[0x645, 0x631, 0x62D, 0x628, 0x627],
      [0x623, 0x647, 0x644, 0x627],
      [0x627, 0x644, 0x633, 0x644, 0x627, 0x645],
      js ''bonjour'',
      js ''salut'',
      js ''hello'']"
  "InsertBotResponse.category default_greeting = js ''general''"
  "isActive default_greeting"
  by (simp_all add: default_greeting_def)

lemma botResponses_newMemStorage:
  "distinct [u1, u2, u3, u4, u5] \<Longrightarrow>
   botResponses (newMemStorage [u1, u2, u3, u4, u5]) =
     [(u1, withId default_balance_inquiry u1), (u2, withId default_recharge u2),
      (u3, withId default_plans u3), (u4, withId default_support u4),
      (u5, withId default_greeting u5)]"
  by (simp add: newMemStorage_def initializeDefaultResponses_def defaultResponses_def)

lemma MemStorage_catalog_default:
  "distinct [u1, u2, u3, u4, u5] \<Longrightarrow>
   MemStorage_catalog (newMemStorage [u1, u2, u3, u4, u5]) =
     [(js ''balance_inquiry'', js ''balance'',
       [[0x631, 0x635, 0x64A, 0x62F],
        js ''balance'',
        js ''solde'',
        js ''credit'']),
      (js ''recharge'', js ''recharge'',
       [[0x634, 0x62D, 0x646],
        js ''recharge'',
        js ''rechargement'',
        js ''credit'']),
      (js ''plans'', js ''plans'',
       [[0x628, 0x627, 0x642, 0x629],
        [0x628, 0x627, 0x642, 0x627, 0x62A],
        js ''forfait'',
        js ''plans'',
        js ''abonnement'']),
      (js ''support'', js ''support'',
       [[0x645, 0x633, 0x627, 0x639, 0x62F, 0x629],
        [0x62F, 0x639, 0x645],
        js ''aide'',
        js ''support'',
        js ''probl'' @ [0xE8, 0x6D, 0x65],
        [0x645, 0x634, 0x643, 0x644, 0x629]]),
      (js ''greeting'', js ''general'',
       [[0x645, 0x631, 0x62D, 0x628, 0x627],
        [0x623, 0x647, 0x644, 0x627],
        [0x627, 0x644, 0x633, 0x644, 0x627, 0x645],
        js ''bonjour'',
        js ''salut'',
        js ''hello''])]"
  by (simp add: MemStorage_catalog_def getAllBotResponses_def botResponses_newMemStorage withId_def
      keywordsOf_def default_balance_inquiry_fields default_recharge_fields default_plans_fields default_support_fields default_greeting_fields)

lemma MobilisChatBot_catalog_mobilisBot:
  "MobilisChatBot_catalog mobilisBot =
     [(js ''balance'', js ''balance'',
       [[0x631, 0x635, 0x64A, 0x62F],
        js ''balance'',
        js ''solde'',
        js ''credit'',
        [0x627, 0x633, 0x62A, 0x639, 0x644, 0x627, 0x645]]),
      (js ''recharge'', js ''recharge'',
       [[0x634, 0x62D, 0x646],
        js ''recharge'',
        js ''rechargement'',
        js ''credit'',
        js ''top-up'']),
      (js ''plans'', js ''plans'',
       [[0x628, 0x627, 0x642, 0x629],
        [0x628, 0x627, 0x642, 0x627, 0x62A],
        js ''forfait'',
        js ''plans'',
        js ''abonnement'',
        js ''subscription'']),
      (js ''support'', js ''support'',
       [[0x645, 0x633, 0x627, 0x639, 0x62F, 0x629],
        [0x62F, 0x639, 0x645],
        js ''aide'',
        js ''support'',
        js ''probl'' @ [0xE8, 0x6D, 0x65],
        [0x645, 0x634, 0x643, 0x644, 0x629],
        js ''help'']),
      (js ''greeting'', js ''general'',
       [[0x645, 0x631, 0x62D, 0x628, 0x627],
        [0x623, 0x647, 0x644, 0x627],
        [0x627, 0x644, 0x633, 0x644, 0x627, 0x645],
        js ''bonjour'',
        js ''salut'',
        js ''hello'',
        js ''hi''])]"
  by (simp add: MobilisChatBot_catalog_def mobilisBot_def)

section \<open>The order of the scan\<close>

lemma considerKeyword_tie:
  "\<not> js_gt (js_div (length keyword) (length message)) (confidence bestMatch)
   \<Longrightarrow> considerKeywordWith lower normalizedMessage message intentName cat keyword bestMatch = bestMatch"
  by (simp add: considerKeywordWith_def)

lemma scan_first_entry_ratio:
  assumes m: "m \<noteq> []"
    and cat: "cat = pre @ e # post"
    and k: "k \<in> set (entryKeywords e)" "k \<noteq> []" "matchesWith lower nm k"
    and before: "\<forall>e' \<in> set pre. \<forall>k' \<in> set (entryKeywords e'). matchesWith lower nm k' \<longrightarrow> ratio k' m < ratio k m"
    and others: "\<forall>e' \<in> set (e # post). \<forall>k' \<in> set (entryKeywords e'). matchesWith lower nm k' \<longrightarrow> ratio k' m \<le> ratio k m"
  shows "fold (tryCandidateWith lower nm m) (candidates cat) unknownMatch = selected e k m"
proof (rule scan_first_entry [OF m cat k])
  fix e' k' assume "e' \<in> set pre" "k' \<in> set (entryKeywords e')" "matchesWith lower nm k'"
  then have "ratio k' m < ratio k m" using before by blast
  then show "length k' < length k" using m by (simp add: ratio_less)
next
  fix e' k' assume "e' \<in> set (e # post)" "k' \<in> set (entryKeywords e')" "matchesWith lower nm k'"
  then have "ratio k' m \<le> ratio k m" using others by blast
  then show "length k' \<le> length k" using m by (simp add: ratio_le)
qed

section \<open>The shape of every result\<close>

lemma matches_length: "matches nm k \<Longrightarrow> length k \<le> length nm"
proof -
  assume "matches nm k"
  then have "length (toLowerCase k) \<le> length nm" by (simp add: matchesWith_def js_includes_length)
  with length_toLowerCase [of k] show ?thesis by simp
qed

lemma js_gt_zero_js_div:
  "js_gt (js_div a n) (Finite 0) \<longleftrightarrow> 0 < a"
  by (simp add: js_div_def zero_less_divide_iff)

lemma scan_shape:
  assumes lower: "\<And>s. (lower s = []) = (s = [])"
    and nm: "length nm \<le> length (lower m)"
  shows "fold (tryCandidateWith lower nm m) (candidates cat) unknownMatch = unknownMatch
   \<or> (\<exists>e \<in> set cat. \<exists>k \<in> set (entryKeywords e). k \<noteq> [] \<and> m \<noteq> [] \<and> matchesWith lower nm k
        \<and> fold (tryCandidateWith lower nm m) (candidates cat) unknownMatch = selected e k m)"
proof -
  let ?r = "fold (tryCandidateWith lower nm m) (candidates cat) unknownMatch"
  from scan_result [of lower nm m cat] show ?thesis
  proof
    assume "?r = unknownMatch" then show ?thesis by simp
  next
    assume "\<exists>e \<in> set cat. \<exists>k \<in> set (entryKeywords e). matchesWith lower nm k
        \<and> js_gt (js_div (length k) (length m)) (Finite 0) \<and> ?r = chosen m (e, k)"
    then obtain e k where ek: "e \<in> set cat" "k \<in> set (entryKeywords e)" "matchesWith lower nm k"
      "js_gt (js_div (length k) (length m)) (Finite 0)" "?r = chosen m (e, k)" by blast
    have k: "k \<noteq> []" using ek(4) by (simp add: js_gt_zero_js_div)
    have "lower k \<noteq> []" using k by (simp add: lower)
    moreover have "length (lower k) \<le> length nm"
      using ek(3) by (simp add: matchesWith_def js_includes_length)
    ultimately have "lower m \<noteq> []" using nm by auto
    then have m: "m \<noteq> []" by (simp add: lower)
    then have "?r = selected e k m" using ek(5) by (simp add: chosen_selected)
    with ek k m show ?thesis by blast
  qed
qed

lemma analyzeIntent_shape:
  assumes "\<And>s. (lower s = []) = (s = [])"
  shows "fst (analyzeIntentWith lower message storage) = unknownMatch
   \<or> (\<exists>e \<in> set (MemStorage_catalog storage). \<exists>k \<in> set (entryKeywords e).
        k \<noteq> [] \<and> message \<noteq> [] \<and> matchesWith lower (lower message) k
        \<and> fst (analyzeIntentWith lower message storage) = selected e k message)"
  unfolding analyzeIntent_scan using assms by (rule scan_shape) simp

lemma MobilisChatBot_analyzeIntent_shape:
  assumes "\<And>s. (lower s = []) = (s = [])"
  shows "fst (MobilisChatBot_analyzeIntentWith lower message this) = unknownMatch
   \<or> (\<exists>e \<in> set (MobilisChatBot_catalog this). \<exists>k \<in> set (entryKeywords e).
        k \<noteq> [] \<and> message \<noteq> [] \<and> matchesWith lower (trim (lower message)) k
        \<and> fst (MobilisChatBot_analyzeIntentWith lower message this) = selected e k message)"
  unfolding MobilisChatBot_analyzeIntent_scan using assms by (rule scan_shape) (rule length_trim)

lemma lowerUnit_length_1: "c \<noteq> 0x130 \<Longrightarrow> length (lowerUnit c) = 1"
  by (simp add: lowerUnit_def)

lemma toLowerCase_same_length: "0x130 \<notin> set s \<Longrightarrow> length (toLowerCase s) = length s"
proof (induction s)
  case Nil
  then show ?case by simp
next
  case (Cons c s)
  have "toLowerCase (c # s) = lowerUnit c @ toLowerCase s" by (simp add: toLowerCase_def)
  moreover have "length (lowerUnit c) = 1" using Cons.prems by (intro lowerUnit_length_1) auto
  ultimately show ?case using Cons by simp
qed

lemma ratio_nonneg: "0 \<le> ratio k m"
  by (simp add: ratio_def)

lemma ratio_le_1: "length k \<le> length m \<Longrightarrow> ratio k m \<le> 1"
  by (cases "m = []") (simp_all add: ratio_def divide_le_eq_1)

lemma shape_range:
  assumes "r = unknownMatch
           \<or> (\<exists>e \<in> set cat. \<exists>k \<in> set (entryKeywords e). k \<noteq> [] \<and> m \<noteq> [] \<and> matches nm k
                \<and> r = selected e k m)"
    and "length nm \<le> length (toLowerCase m)"
  shows "\<exists>q. confidence r = Finite q \<and> 0 \<le> q \<and> (length (toLowerCase m) \<le> length m \<longrightarrow> q \<le> 1)"
  using assms(1)
proof
  assume "r = unknownMatch"
  then show ?thesis by (simp add: unknownMatch_def)
next
  assume "\<exists>e \<in> set cat. \<exists>k \<in> set (entryKeywords e). k \<noteq> [] \<and> m \<noteq> [] \<and> matches nm k
                \<and> r = selected e k m"
  then obtain e k where ek: "matches nm k" "r = selected e k m" by blast
  have "length k \<le> length (toLowerCase m)"
    using matches_length [OF ek(1)] assms(2) by simp
  then have "length (toLowerCase m) \<le> length m \<longrightarrow> ratio k m \<le> 1"
    by (auto intro: ratio_le_1)
  then show ?thesis using ek(2) by (simp add: selected_def ratio_nonneg)
qed

lemma shape_zero:
  assumes "r = unknownMatch
           \<or> (\<exists>e \<in> set cat. \<exists>k \<in> set (entryKeywords e). k \<noteq> [] \<and> m \<noteq> [] \<and> matchesWith lower nm k
                \<and> r = selected e k m)"
  shows "confidence r = Finite 0 \<longleftrightarrow> r = unknownMatch"
  using assms
proof
  assume "r = unknownMatch"
  then show ?thesis by (simp add: unknownMatch_def)
next
  assume "\<exists>e \<in> set cat. \<exists>k \<in> set (entryKeywords e). k \<noteq> [] \<and> m \<noteq> [] \<and> matchesWith lower nm k
                \<and> r = selected e k m"
  then obtain e k where ek: "k \<noteq> []" "m \<noteq> []" "r = selected e k m" by blast
  have "0 < ratio k m" using ek(1,2) by (simp add: ratio_pos)
  then have "confidence r \<noteq> Finite 0" "r \<noteq> unknownMatch"
    using ek(3) by (auto simp: selected_def unknownMatch_def)
  then show ?thesis by simp
qed

lemma shape_unknown:
  assumes "r = unknownMatch
           \<or> (\<exists>e \<in> set cat. \<exists>k \<in> set (entryKeywords e). k \<noteq> [] \<and> m \<noteq> [] \<and> matchesWith lower nm k
                \<and> r = selected e k m)"
    and "\<forall>e \<in> set cat. entryIntent e \<noteq> js ''unknown''"
  shows "ServiceIntent.intent r = js ''unknown'' \<longleftrightarrow> confidence r = Finite 0"
  using assms(1)
proof
  assume "r = unknownMatch"
  then show ?thesis by (simp add: unknownMatch_def)
next
  assume "\<exists>e \<in> set cat. \<exists>k \<in> set (entryKeywords e). k \<noteq> [] \<and> m \<noteq> [] \<and> matchesWith lower nm k
                \<and> r = selected e k m"
  then obtain e k where ek: "e \<in> set cat" "k \<noteq> []" "m \<noteq> []" "r = selected e k m" by blast
  have "0 < ratio k m" using ek(2,3) by (simp add: ratio_pos)
  moreover have "entryIntent e \<noteq> js ''unknown''" using ek(1) assms(2) by blast
  ultimately show ?thesis using ek(4) by (simp add: selected_def)
qed

section \<open>Replies\<close>

lemma find_None_iff_no_element: "find P xs = None \<longleftrightarrow> (\<forall>x \<in> set xs. \<not> P x)"
  by (induction xs) auto

lemma getBotResponseByIntent_None:
  "(\<forall>r \<in> set (fst (getAllBotResponses storage)). InsertBotResponse.intent r \<noteq> name)
   \<Longrightarrow> fst (getBotResponseByIntent name storage) = None"
  by (auto simp: getBotResponseByIntent_def getAllBotResponses_def find_None_iff_no_element)

lemma getBotResponseByIntent_default:
  "distinct [u1, u2, u3, u4, u5] \<Longrightarrow>
   fst (getBotResponseByIntent (js ''balance_inquiry'') (newMemStorage [u1, u2, u3, u4, u5])) =
   Some (withId default_balance_inquiry u1)"
  by (simp add: getBotResponseByIntent_def botResponses_newMemStorage withId_def
      default_balance_inquiry_fields)

lemma scan_quel_est_mon_solde_scenario:
  "fold (tryCandidate (toLowerCase (js ''quel est mon solde'')) (js ''quel est mon solde''))
     (candidates [(js ''balance_inquiry'', js ''balance'', [js ''balance'', js ''solde''])])
     unknownMatch =
   \<lparr>ServiceIntent.intent = js ''balance_inquiry'', confidence = Finite (5 / 18),
    category = js ''balance''\<rparr>"
  by code_simp

lemma analyzeIntent_quel_est_mon_solde_default:
  assumes "distinct [u1, u2, u3, u4, u5]"
  shows "fst (analyzeIntent (js ''quel est mon solde'') (newMemStorage [u1, u2, u3, u4, u5])) =
   \<lparr>ServiceIntent.intent = js ''balance_inquiry'', confidence = Finite (5 / 18),
    category = js ''balance''\<rparr>"
  unfolding analyzeIntent_scan MemStorage_catalog_default [OF assms] by code_simp

lemma generateBotResponse_found:
  assumes "\<not> js_lt (confidence i) (Finite (1 / 10))"
    and "fst (getBotResponseByIntent (ServiceIntent.intent i) storage) = Some r"
  shows "fst (generateBotResponse i fr storage) = Some (responseFr r)"
  using assms by (simp add: generateBotResponse_def split_beta)

section \<open>Where trimming changes the match\<close>

lemma dropWhile_keeps_occurrence:
  "k \<noteq> [] \<Longrightarrow> \<not> P (hd k) \<Longrightarrow> \<exists>p'. dropWhile P (p @ k @ q) = p' @ k @ q"
proof (induction p)
  case Nil
  then obtain c k' where "k = c # k'" by (cases k) auto
  with Nil have "dropWhile P ([] @ k @ q) = [] @ k @ q" by simp
  then show ?case by blast
next
  case (Cons x p)
  then obtain p' where p': "dropWhile P (p @ k @ q) = p' @ k @ q" by blast
  show ?case
  proof (cases "P x")
    case True
    then show ?thesis using p' by auto
  next
    case False
    then have "dropWhile P ((x # p) @ k @ q) = (x # p) @ k @ q" by simp
    then show ?thesis by blast
  qed
qed

lemma js_includes_trim_iff:
  assumes "k \<noteq> []" "\<not> isWhiteSpace (hd k)" "\<not> isWhiteSpace (last k)"
  shows "js_includes (trim s) k \<longleftrightarrow> js_includes s k"
proof
  assume "js_includes (trim s) k"
  then show "js_includes s k" by (rule js_includes_trim)
next
  assume "js_includes s k"
  then obtain p q where "s = p @ k @ q" by (auto simp: js_includes_iff)
  then obtain p' where 1: "dropWhile isWhiteSpace s = p' @ k @ q"
    using dropWhile_keeps_occurrence [of k isWhiteSpace p q] assms(1,2) by auto
  have "rev k \<noteq> []" "\<not> isWhiteSpace (hd (rev k))"
    using assms(1,3) by (simp_all add: hd_rev)
  then obtain q' where 2: "dropWhile isWhiteSpace (rev q @ rev k @ rev p') = q' @ rev k @ rev p'"
    using dropWhile_keeps_occurrence [of "rev k" isWhiteSpace "rev q" "rev p'"] by auto
  have "trim s = rev (dropWhile isWhiteSpace (rev q @ rev k @ rev p'))"
    by (simp add: trim_def 1)
  then have "trim s = p' @ k @ rev q'" by (simp add: 2)
  then show "js_includes (trim s) k" unfolding js_includes_iff by blast
qed

lemma trim_fixed_hd:
  assumes "trim k = k" "k \<noteq> []"
  shows "\<not> isWhiteSpace (hd k)"
proof
  assume ws: "isWhiteSpace (hd k)"
  obtain c r where k: "k = c # r" using assms(2) by (cases k) auto
  have "length (dropWhile isWhiteSpace k) \<le> length r"
    using ws k by (simp add: length_dropWhile_le)
  moreover have "length (trim k) \<le> length (dropWhile isWhiteSpace k)"
    unfolding trim_def using length_dropWhile_le [of isWhiteSpace "rev (dropWhile isWhiteSpace k)"]
    by simp
  ultimately have "length (trim k) < length k" using k by simp
  then show False using assms(1) by simp
qed

lemma trim_fixed_last:
  assumes "trim k = k" "k \<noteq> []"
  shows "\<not> isWhiteSpace (last k)"
proof
  assume ws: "isWhiteSpace (last k)"
  have "\<not> isWhiteSpace (hd k)" using assms by (rule trim_fixed_hd)
  then have d: "dropWhile isWhiteSpace k = k" using assms(2) by (cases k) auto
  obtain c r where r: "rev k = c # r" using assms(2) by (cases "rev k") auto
  then have "c = last k" using assms(2) by (metis hd_rev list.sel(1))
  then have "isWhiteSpace c" using ws by simp
  then have "dropWhile isWhiteSpace (c # r) = dropWhile isWhiteSpace r" by simp
  then have "length (dropWhile isWhiteSpace (c # r)) \<le> length r"
    by (simp only: length_dropWhile_le)
  then have "length (dropWhile isWhiteSpace (rev k)) \<le> length r" by (simp only: r)
  then have "length (trim k) \<le> length r" by (simp add: trim_def d)
  moreover have "length k = Suc (length r)" using r by (metis length_Cons length_rev)
  ultimately show False using assms(1) by simp
qed

lemma matches_trim_fixed:
  assumes "trim (lower k) = lower k"
  shows "matchesWith lower (trim s) k \<longleftrightarrow> matchesWith lower s k"
proof (cases "lower k = []")
  case True
  then show ?thesis by (simp add: matchesWith_def)
next
  case False
  show ?thesis unfolding matchesWith_def
    using False trim_fixed_hd [OF assms False] trim_fixed_last [OF assms False]
    by (rule js_includes_trim_iff)
qed

lemma scan_cong:
  assumes "\<And>e k. e \<in> set cat \<Longrightarrow> k \<in> set (entryKeywords e) \<Longrightarrow> matchesWith lower nm k \<longleftrightarrow> matchesWith lower nm' k"
  shows "fold (tryCandidateWith lower nm m) (candidates cat) best = fold (tryCandidateWith lower nm' m) (candidates cat) best"
proof (rule fold_cong)
  fix c assume "c \<in> set (candidates cat)"
  then have "matchesWith lower nm (snd c) \<longleftrightarrow> matchesWith lower nm' (snd c)"
    using assms [of "fst c" "snd c"] by (simp add: in_candidates)
  then show "tryCandidateWith lower nm m c = tryCandidateWith lower nm' m c"
    by (intro ext) (simp add: tryCandidate_eq)
qed simp_all

section \<open>The properties\<close>

text \<open>
  \<^bold>\<open>C1.\<close>  As stated the claim fails on an empty keyword, which occurs in every message
  and scores \<open>0\<close>.  Amended: for every message that is not empty and every catalog in
  which at least one keyword that is not empty matches (its lower-cased form occurs in the
  lower-cased, trimmed message), the result has a confidence above \<open>0\<close> that is the
  maximum over all matching keywords of the length of the keyword over the length of the
  message as received, and its intent and category are those of an entry with a keyword
  that attains this maximum.  This holds of \<open>MobilisChatBot.analyzeIntent\<close> on every
  message.  It holds of the route's \<open>analyzeIntent\<close>, which does not trim, wherever
  trimming makes no difference to the matches: where the lower-cased message has no white
  space at either end, or where no lower-cased keyword of the catalog has.  Nothing is
  asked of the lower-casing function \<open>lower\<close>: the property holds whatever
  \<open>toLowerCase\<close> does to a string.
\<close>

theorem classify_max_match:
  assumes "message \<noteq> []"
  shows
    "((\<exists>e \<in> set (MobilisChatBot_catalog this). \<exists>k \<in> set (entryKeywords e).
          k \<noteq> [] \<and> matchesWith lower (trim (lower message)) k) \<longrightarrow>
      (\<exists>e \<in> set (MobilisChatBot_catalog this). \<exists>k \<in> set (entryKeywords e).
          matchesWith lower (trim (lower message)) k
          \<and> fst (MobilisChatBot_analyzeIntentWith lower message this) = selected e k message
          \<and> js_gt (confidence (fst (MobilisChatBot_analyzeIntentWith lower message this))) (Finite 0)
          \<and> ratio k message =
              Max ((\<lambda>k. ratio k message) `
                   set (matchingKeywordsWith lower (trim (lower message)) (MobilisChatBot_catalog this)))))
     \<and> ((trim (lower message) = lower message
         \<or> (\<forall>e \<in> set (MemStorage_catalog storage). \<forall>k \<in> set (entryKeywords e).
               trim (lower k) = lower k))
        \<and> (\<exists>e \<in> set (MemStorage_catalog storage). \<exists>k \<in> set (entryKeywords e).
              k \<noteq> [] \<and> matchesWith lower (trim (lower message)) k) \<longrightarrow>
      (\<exists>e \<in> set (MemStorage_catalog storage). \<exists>k \<in> set (entryKeywords e).
          matchesWith lower (trim (lower message)) k
          \<and> fst (analyzeIntentWith lower message storage) = selected e k message
          \<and> js_gt (confidence (fst (analyzeIntentWith lower message storage))) (Finite 0)
          \<and> ratio k message =
              Max ((\<lambda>k. ratio k message) `
                   set (matchingKeywordsWith lower (trim (lower message)) (MemStorage_catalog storage)))))"
proof -
  have gen: "\<exists>e \<in> set cat. \<exists>k \<in> set (entryKeywords e). matchesWith lower nm k
          \<and> fold (tryCandidateWith lower nm message) (candidates cat) unknownMatch = selected e k message
          \<and> js_gt (confidence (fold (tryCandidateWith lower nm message) (candidates cat) unknownMatch)) (Finite 0)
          \<and> ratio k message = Max ((\<lambda>k. ratio k message) ` set (matchingKeywordsWith lower nm cat))"
    if "\<exists>e \<in> set cat. \<exists>k \<in> set (entryKeywords e). k \<noteq> [] \<and> matchesWith lower nm k" for nm cat
  proof -
    from that obtain e k where "e \<in> set cat" "k \<in> set (entryKeywords e)" "k \<noteq> []" "matchesWith lower nm k"
      by blast
    from scan_max [OF assms this]
    obtain e' k' where r: "e' \<in> set cat" "k' \<in> set (entryKeywords e')" "matchesWith lower nm k'"
      "fold (tryCandidateWith lower nm message) (candidates cat) unknownMatch = selected e' k' message"
      "0 < ratio k' message"
      "ratio k' message = Max ((\<lambda>k. ratio k message) ` set (matchingKeywordsWith lower nm cat))"
      by blast
    have "js_gt (confidence (selected e' k' message)) (Finite 0)"
      using r(5) by (simp add: selected_def)
    with r show ?thesis by auto
  qed
  show ?thesis
  proof (intro conjI impI)
    assume "\<exists>e \<in> set (MobilisChatBot_catalog this). \<exists>k \<in> set (entryKeywords e).
          k \<noteq> [] \<and> matchesWith lower (trim (lower message)) k"
    from gen [OF this] show "\<exists>e \<in> set (MobilisChatBot_catalog this). \<exists>k \<in> set (entryKeywords e).
          matchesWith lower (trim (lower message)) k
          \<and> fst (MobilisChatBot_analyzeIntentWith lower message this) = selected e k message
          \<and> js_gt (confidence (fst (MobilisChatBot_analyzeIntentWith lower message this))) (Finite 0)
          \<and> ratio k message =
              Max ((\<lambda>k. ratio k message) `
                   set (matchingKeywordsWith lower (trim (lower message)) (MobilisChatBot_catalog this)))"
      by (simp only: MobilisChatBot_analyzeIntent_scan)
  next
    assume a: "(trim (lower message) = lower message
         \<or> (\<forall>e \<in> set (MemStorage_catalog storage). \<forall>k \<in> set (entryKeywords e).
               trim (lower k) = lower k))
        \<and> (\<exists>e \<in> set (MemStorage_catalog storage). \<exists>k \<in> set (entryKeywords e).
              k \<noteq> [] \<and> matchesWith lower (trim (lower message)) k)"
    have agree: "matchesWith lower (lower message) k \<longleftrightarrow> matchesWith lower (trim (lower message)) k"
      if ek: "e \<in> set (MemStorage_catalog storage)" "k \<in> set (entryKeywords e)" for e k
    proof -
      from a ek consider "trim (lower message) = lower message"
        | "trim (lower k) = lower k" by blast
      then show ?thesis
      proof cases
        case 1
        then show ?thesis by simp
      next
        case 2
        then show ?thesis by (simp add: matches_trim_fixed)
      qed
    qed
    have scan: "fst (analyzeIntentWith lower message storage) =
        fold (tryCandidateWith lower (trim (lower message)) message)
          (candidates (MemStorage_catalog storage)) unknownMatch"
      unfolding analyzeIntent_scan using agree by (rule scan_cong)
    from a have "\<exists>e \<in> set (MemStorage_catalog storage). \<exists>k \<in> set (entryKeywords e).
              k \<noteq> [] \<and> matchesWith lower (trim (lower message)) k" by blast
    from gen [OF this] show "\<exists>e \<in> set (MemStorage_catalog storage). \<exists>k \<in> set (entryKeywords e).
          matchesWith lower (trim (lower message)) k
          \<and> fst (analyzeIntentWith lower message storage) = selected e k message
          \<and> js_gt (confidence (fst (analyzeIntentWith lower message storage))) (Finite 0)
          \<and> ratio k message =
              Max ((\<lambda>k. ratio k message) `
                   set (matchingKeywordsWith lower (trim (lower message)) (MemStorage_catalog storage)))"
      by (simp only: scan)
  qed
qed

text \<open>
  The message \<open>mon solde\<close> on the catalog of \<open>mobilisBot\<close>, and the same message with
  a space after it on the scenario storage, with \<open>toLowerCase\<close> for \<open>lower\<close>: the
  keyword \<open>solde\<close> matches.
\<close>

theorem classify_max_match_witness:
  "js ''mon solde'' \<noteq> []
   \<and> (\<exists>e \<in> set (MobilisChatBot_catalog mobilisBot). \<exists>k \<in> set (entryKeywords e).
          matches (trim (toLowerCase (js ''mon solde''))) k
          \<and> fst (MobilisChatBot_analyzeIntent (js ''mon solde'') mobilisBot) =
              selected e k (js ''mon solde'')
          \<and> js_gt (confidence (fst (MobilisChatBot_analyzeIntent (js ''mon solde'') mobilisBot)))
               (Finite 0)
          \<and> ratio k (js ''mon solde'') =
              Max ((\<lambda>k. ratio k (js ''mon solde'')) `
                   set (matchingKeywords (trim (toLowerCase (js ''mon solde'')))
                          (MobilisChatBot_catalog mobilisBot))))
   \<and> js ''mon solde '' \<noteq> []
   \<and> (\<exists>e \<in> set (MemStorage_catalog (scenarioStorage (js ''1'') (js ''A'') (js ''F''))).
        \<exists>k \<in> set (entryKeywords e).
          matches (trim (toLowerCase (js ''mon solde ''))) k
          \<and> fst (analyzeIntent (js ''mon solde '') (scenarioStorage (js ''1'') (js ''A'') (js ''F''))) =
              selected e k (js ''mon solde '')
          \<and> js_gt (confidence (fst (analyzeIntent (js ''mon solde '')
                                   (scenarioStorage (js ''1'') (js ''A'') (js ''F'')))))
               (Finite 0)
          \<and> ratio k (js ''mon solde '') =
              Max ((\<lambda>k. ratio k (js ''mon solde '')) `
                   set (matchingKeywords (trim (toLowerCase (js ''mon solde '')))
                          (MemStorage_catalog (scenarioStorage (js ''1'') (js ''A'') (js ''F''))))))"
proof -
  let ?m = "js ''mon solde''"
  let ?m' = "js ''mon solde ''"
  let ?st = "scenarioStorage (js ''1'') (js ''A'') (js ''F'')"
  have ne: "?m \<noteq> []" and ne': "?m' \<noteq> []" by code_simp+
  have bot: "\<exists>e \<in> set (MobilisChatBot_catalog mobilisBot). \<exists>k \<in> set (entryKeywords e).
          k \<noteq> [] \<and> matches (trim (toLowerCase ?m)) k"
    by code_simp
  have sto: "(trim (toLowerCase ?m') = toLowerCase ?m'
         \<or> (\<forall>e \<in> set (MemStorage_catalog ?st). \<forall>k \<in> set (entryKeywords e).
               trim (toLowerCase k) = toLowerCase k))
        \<and> (\<exists>e \<in> set (MemStorage_catalog ?st).
             \<exists>k \<in> set (entryKeywords e). k \<noteq> [] \<and> matches (trim (toLowerCase ?m')) k)"
    by code_simp
  show ?thesis
    using ne ne'
      classify_max_match [where lower = toLowerCase and this = mobilisBot, OF ne,
        THEN conjunct1, THEN mp, OF bot]
      classify_max_match [where lower = toLowerCase and storage = ?st, OF ne',
        THEN conjunct2, THEN mp, OF sto]
    by (intro conjI)
qed

text \<open>
  The keywords \<open>solde\<close> and the empty string, as the admin panel stores the input
  \<open>solde,\<close>; the message \<open>hi\<close>.  The empty keyword is a substring of the normalized
  message, and the confidence returned is not above \<open>0\<close>.
\<close>

theorem classify_max_match_counterexample:
  "js ''hi'' \<noteq> []
   \<and> (\<exists>e \<in> set (MemStorage_catalog
          \<lparr>botResponses = [(js ''1'',
             \<lparr>InsertBotResponse.intent = js ''balance_inquiry'',
              keywords' = JArray [js ''solde'', []], responseAr = js ''A'', responseFr = js ''F'',
              category = js ''balance'', isActive = True, id' = js ''1''\<rparr>)]\<rparr>).
        \<exists>k \<in> set (entryKeywords e). js_includes (trim (toLowerCase (js ''hi''))) k)
   \<and> \<not> js_gt (confidence (fst (analyzeIntent (js ''hi'')
          \<lparr>botResponses = [(js ''1'',
             \<lparr>InsertBotResponse.intent = js ''balance_inquiry'',
              keywords' = JArray [js ''solde'', []], responseAr = js ''A'', responseFr = js ''F'',
              category = js ''balance'', isActive = True, id' = js ''1''\<rparr>)]\<rparr>))) (Finite 0)
   \<and> fst (analyzeIntent (js ''hi'')
          \<lparr>botResponses = [(js ''1'',
             \<lparr>InsertBotResponse.intent = js ''balance_inquiry'',
              keywords' = JArray [js ''solde'', []], responseAr = js ''A'', responseFr = js ''F'',
              category = js ''balance'', isActive = True, id' = js ''1''\<rparr>)]\<rparr>) =
       \<lparr>ServiceIntent.intent = js ''unknown'', confidence = Finite 0, category = js ''general''\<rparr>"
  by code_simp

text \<open>
  \<^bold>\<open>C2.\<close>  \<open>generateResponse\<close> and \<open>generateBotResponse\<close> return the fixed unknown
  message of the requested language whenever the confidence of the intent is below
  \<open>0.1\<close>, whatever the intent id is.  From \<open>0.1\<close> on, \<open>0.1\<close> itself included, they
  look the intent id up instead: \<open>generateBotResponse\<close> among the active responses of the
  storage, \<open>generateResponse\<close> among the properties of its reply table.
\<close>

theorem resolveReply_threshold:
  "(js_lt (confidence i) (Finite (1 / 10)) \<longrightarrow>
      generateResponse i language = JSString (unknown (responses language))
      \<and> generateBotResponse i language storage =
          (Some (if language = ar then unknownAr else unknownFr), storage))
   \<and> (js_ge (confidence i) (Finite (1 / 10)) \<longrightarrow>
      generateResponse i language =
        (case getProperty (responses language) (ServiceIntent.intent i) of
           Some v \<Rightarrow> if truthy v then v else JSString (unknown (responses language))
         | None \<Rightarrow> JSString (unknown (responses language)))
      \<and> generateBotResponse i language storage =
          (case fst (getBotResponseByIntent (ServiceIntent.intent i) storage) of
             None \<Rightarrow> None
           | Some r \<Rightarrow> Some (if language = ar then responseAr r else responseFr r),
           storage))"
proof (intro conjI impI)
  assume "js_lt (confidence i) (Finite (1 / 10))"
  then show "generateResponse i language = JSString (unknown (responses language))"
    and "generateBotResponse i language storage =
          (Some (if language = ar then unknownAr else unknownFr), storage)"
    by (simp_all add: generateResponse_def generateBotResponse_def)
next
  assume "js_ge (confidence i) (Finite (1 / 10))"
  then have no: "\<not> js_lt (confidence i) (Finite (1 / 10))" by (rule js_ge_not_lt)
  then show "generateResponse i language =
        (case getProperty (responses language) (ServiceIntent.intent i) of
           Some v \<Rightarrow> if truthy v then v else JSString (unknown (responses language))
         | None \<Rightarrow> JSString (unknown (responses language)))"
    by (simp add: generateResponse_def)
  from no show "generateBotResponse i language storage =
          (case fst (getBotResponseByIntent (ServiceIntent.intent i) storage) of
             None \<Rightarrow> None
           | Some r \<Rightarrow> Some (if language = ar then responseAr r else responseFr r),
           storage)"
    by (simp add: generateBotResponse_def getBotResponseByIntent_def split: option.splits)
qed

text \<open>
  Both sides of the boundary, at the confidences \<open>0.099999\<close> and \<open>0.1\<close>: on the
  scenario storage with the French reply \<open>F\<close>, and on the reply table of
  \<open>MobilisChatBot\<close> in Arabic.
\<close>

theorem resolveReply_threshold_witness:
  "js_lt (Finite (99999 / 1000000)) (Finite (1 / 10))
   \<and> fst (generateBotResponse
        \<lparr>ServiceIntent.intent = js ''balance_inquiry'', confidence = Finite (99999 / 1000000),
         category = js ''balance''\<rparr> fr (scenarioStorage (js ''1'') (js ''A'') (js ''F''))) = Some unknownFr
   \<and> generateResponse
        \<lparr>ServiceIntent.intent = js ''balance'', confidence = Finite (99999 / 1000000),
         category = js ''balance''\<rparr> ar = JSString (unknown responses_ar)
   \<and> js_ge (Finite (1 / 10)) (Finite (1 / 10))
   \<and> fst (generateBotResponse
        \<lparr>ServiceIntent.intent = js ''balance_inquiry'', confidence = Finite (1 / 10),
         category = js ''balance''\<rparr> fr (scenarioStorage (js ''1'') (js ''A'') (js ''F''))) = Some (js ''F'')
   \<and> generateResponse
        \<lparr>ServiceIntent.intent = js ''balance'', confidence = Finite (1 / 10),
         category = js ''balance''\<rparr> ar = JSString (balance responses_ar)"
proof -
  let ?st = "scenarioStorage (js ''1'') (js ''A'') (js ''F'')"
  have lo: "js_lt (Finite (99999 / 1000000)) (Finite (1 / 10))" by (simp add: js_lt_def)
  have hi: "js_ge (Finite (1 / 10)) (Finite (1 / 10))" by (simp add: js_ge_def)
  have key: "getProperty (responses ar) (js ''balance'') = Some (JSString (balance responses_ar))"
    by (simp add: getProperty_def responses_def)
  have t: "balance responses_ar \<noteq> []"
    by (simp add: responses_ar_def)
  have 1: "fst (generateBotResponse
        \<lparr>ServiceIntent.intent = js ''balance_inquiry'', confidence = Finite (99999 / 1000000),
         category = js ''balance''\<rparr> fr ?st) = Some unknownFr"
    using lo resolveReply_threshold [of "\<lparr>ServiceIntent.intent = js ''balance_inquiry'',
         confidence = Finite (99999 / 1000000), category = js ''balance''\<rparr>" fr ?st]
    by simp
  have 2: "generateResponse
        \<lparr>ServiceIntent.intent = js ''balance'', confidence = Finite (99999 / 1000000),
         category = js ''balance''\<rparr> ar = JSString (unknown responses_ar)"
    using lo resolveReply_threshold [of "\<lparr>ServiceIntent.intent = js ''balance'',
         confidence = Finite (99999 / 1000000), category = js ''balance''\<rparr>" ar ?st]
    by (simp add: responses_def)
  have 3: "fst (generateBotResponse
        \<lparr>ServiceIntent.intent = js ''balance_inquiry'', confidence = Finite (1 / 10),
         category = js ''balance''\<rparr> fr ?st) = Some (js ''F'')"
    using hi resolveReply_threshold [of "\<lparr>ServiceIntent.intent = js ''balance_inquiry'',
         confidence = Finite (1 / 10), category = js ''balance''\<rparr>" fr ?st]
    by (simp add: getBotResponseByIntent_scenario scenarioResponse_def)
  have 4: "generateResponse
        \<lparr>ServiceIntent.intent = js ''balance'', confidence = Finite (1 / 10),
         category = js ''balance''\<rparr> ar = JSString (balance responses_ar)"
    using hi resolveReply_threshold [of "\<lparr>ServiceIntent.intent = js ''balance'',
         confidence = Finite (1 / 10), category = js ''balance''\<rparr>" ar ?st]
    by (simp add: key t)
  show ?thesis using lo hi 1 2 3 4 by simp
qed

text \<open>
  \<^bold>\<open>C3.\<close>  For the empty message and every catalog, both \<open>analyzeIntent\<close> functions
  return exactly the unknown result, intent \<open>unknown\<close> with confidence \<open>0\<close> and category
  \<open>general\<close>; the functions are total on messages and raise no error.  Neither
  function tests for an empty message.  In an empty normalized message only the empty
  keyword occurs; its quotient is \<open>0 / 0 = NaN\<close> for the empty message and \<open>0\<close> for a
  message of white space, and neither is greater than the confidence of \<open>bestMatch\<close>,
  which stays as it is.  So the result is the one a short-circuit would give; for
  \<open>MobilisChatBot\<close> this holds for every message whose normalized form is empty.
\<close>

theorem classify_empty_message:
  "fst (MobilisChatBot_analyzeIntent [] this) =
     \<lparr>ServiceIntent.intent = js ''unknown'', confidence = Finite 0, category = js ''general''\<rparr>
   \<and> fst (analyzeIntent [] storage) =
     \<lparr>ServiceIntent.intent = js ''unknown'', confidence = Finite 0, category = js ''general''\<rparr>
   \<and> (trim (toLowerCase message) = [] \<longrightarrow>
        fst (MobilisChatBot_analyzeIntent message this) =
          \<lparr>ServiceIntent.intent = js ''unknown'', confidence = Finite 0,
           category = js ''general''\<rparr>)
   \<and> js_div (length ([] :: jsstring)) (length ([] :: jsstring)) = NaN
   \<and> considerKeyword [] [] intentName cat [] bestMatch = bestMatch"
proof -
  have "considerKeyword [] [] intentName cat [] bestMatch = bestMatch"
    by (simp add: considerKeywordWith_def js_div_def)
  moreover have "js_div (length ([] :: jsstring)) (length ([] :: jsstring)) = NaN"
    by (simp add: js_div_def)
  moreover have "fst (MobilisChatBot_analyzeIntent [] this) = unknownMatch"
    by (simp add: MobilisChatBot_analyzeIntent_scan scan_empty_normalized)
  moreover have "fst (analyzeIntent [] storage) = unknownMatch"
    by (simp add: analyzeIntent_scan scan_empty_normalized)
  moreover have "fst (MobilisChatBot_analyzeIntent message this) = unknownMatch"
    if "trim (toLowerCase message) = []"
    using that by (simp add: MobilisChatBot_analyzeIntent_scan scan_empty_normalized)
  ultimately show ?thesis by (simp add: unknownMatch_def)
qed

text \<open>The message of three spaces, and the empty message, on the catalog of \<open>mobilisBot\<close>.\<close>

theorem classify_empty_message_witness:
  "trim (toLowerCase (js ''   '')) = []
   \<and> fst (MobilisChatBot_analyzeIntent (js ''   '') mobilisBot) =
     \<lparr>ServiceIntent.intent = js ''unknown'', confidence = Finite 0, category = js ''general''\<rparr>
   \<and> fst (MobilisChatBot_analyzeIntent [] mobilisBot) =
     \<lparr>ServiceIntent.intent = js ''unknown'', confidence = Finite 0, category = js ''general''\<rparr>"
proof -
  have h: "trim (toLowerCase (js ''   '')) = []"
    by (simp add: js_def toLowerCase_def lowerUnit_def trim_def isWhiteSpace_def)
  show ?thesis
    using h classify_empty_message [where this = mobilisBot and message = "js ''   ''"] by simp
qed

text \<open>
  \<^bold>\<open>C4.\<close>  Entries and keywords are scanned in catalog order and \<open>bestMatch\<close> is
  replaced only by a strictly greater confidence: a keyword whose confidence is equal to
  that of \<open>bestMatch\<close> leaves it as it is.  So of the entries whose best matching
  keyword has the greatest confidence, the first in catalog order is returned: let the
  catalog be \<open>pre @ e # post\<close>, let \<open>k\<close> be a matching keyword of \<open>e\<close> that is not empty,
  let every matching keyword of the entries of \<open>pre\<close> score strictly less than \<open>k\<close> and
  every matching keyword of \<open>e\<close> and of the entries of \<open>post\<close> score at most as much
  (some may tie with \<open>k\<close>); then the result is the intent and the category of \<open>e\<close> with
  the confidence of \<open>k\<close>.  A keyword matches when \<open>lower\<close> of it occurs in the
  normalized message, and nothing is asked of the lower-casing function \<open>lower\<close>.
\<close>

theorem classify_first_seen_wins:
  assumes "message \<noteq> []"
  shows
    "(js_div (length keyword) (length message) = confidence bestMatch \<longrightarrow>
        considerKeywordWith lower normalizedMessage message intentName cat keyword bestMatch = bestMatch)
     \<and> (MobilisChatBot_catalog this = pre @ e # post
        \<and> k \<in> set (entryKeywords e) \<and> k \<noteq> [] \<and> matchesWith lower (trim (lower message)) k
        \<and> (\<forall>e' \<in> set pre. \<forall>k' \<in> set (entryKeywords e').
              matchesWith lower (trim (lower message)) k' \<longrightarrow> ratio k' message < ratio k message)
        \<and> (\<forall>e' \<in> set (e # post). \<forall>k' \<in> set (entryKeywords e').
              matchesWith lower (trim (lower message)) k' \<longrightarrow> ratio k' message \<le> ratio k message)
        \<longrightarrow> fst (MobilisChatBot_analyzeIntentWith lower message this) = selected e k message)
     \<and> (MemStorage_catalog storage = pre @ e # post
        \<and> k \<in> set (entryKeywords e) \<and> k \<noteq> [] \<and> matchesWith lower (lower message) k
        \<and> (\<forall>e' \<in> set pre. \<forall>k' \<in> set (entryKeywords e').
              matchesWith lower (lower message) k' \<longrightarrow> ratio k' message < ratio k message)
        \<and> (\<forall>e' \<in> set (e # post). \<forall>k' \<in> set (entryKeywords e').
              matchesWith lower (lower message) k' \<longrightarrow> ratio k' message \<le> ratio k message)
        \<longrightarrow> fst (analyzeIntentWith lower message storage) = selected e k message)"
proof (intro conjI impI)
  assume "js_div (length keyword) (length message) = confidence bestMatch"
  then have "\<not> js_gt (js_div (length keyword) (length message)) (confidence bestMatch)"
    by (simp add: js_gt_irrefl)
  then show "considerKeywordWith lower normalizedMessage message intentName cat keyword bestMatch = bestMatch"
    by (rule considerKeyword_tie)
next
  assume a: "MobilisChatBot_catalog this = pre @ e # post
        \<and> k \<in> set (entryKeywords e) \<and> k \<noteq> [] \<and> matchesWith lower (trim (lower message)) k
        \<and> (\<forall>e' \<in> set pre. \<forall>k' \<in> set (entryKeywords e').
              matchesWith lower (trim (lower message)) k' \<longrightarrow> ratio k' message < ratio k message)
        \<and> (\<forall>e' \<in> set (e # post). \<forall>k' \<in> set (entryKeywords e').
              matchesWith lower (trim (lower message)) k' \<longrightarrow> ratio k' message \<le> ratio k message)"
  have "fold (tryCandidateWith lower (trim (lower message)) message)
          (candidates (MobilisChatBot_catalog this)) unknownMatch = selected e k message"
    using assms a by (intro scan_first_entry_ratio [where pre = pre and post = post]) simp_all
  then show "fst (MobilisChatBot_analyzeIntentWith lower message this) = selected e k message"
    by (simp only: MobilisChatBot_analyzeIntent_scan)
next
  assume a: "MemStorage_catalog storage = pre @ e # post
        \<and> k \<in> set (entryKeywords e) \<and> k \<noteq> [] \<and> matchesWith lower (lower message) k
        \<and> (\<forall>e' \<in> set pre. \<forall>k' \<in> set (entryKeywords e').
              matchesWith lower (lower message) k' \<longrightarrow> ratio k' message < ratio k message)
        \<and> (\<forall>e' \<in> set (e # post). \<forall>k' \<in> set (entryKeywords e').
              matchesWith lower (lower message) k' \<longrightarrow> ratio k' message \<le> ratio k message)"
  have "fold (tryCandidateWith lower (lower message) message)
          (candidates (MemStorage_catalog storage)) unknownMatch = selected e k message"
    using assms a by (intro scan_first_entry_ratio [where pre = pre and post = post]) simp_all
  then show "fst (analyzeIntentWith lower message storage) = selected e k message"
    by (simp only: analyzeIntent_scan)
qed

text \<open>
  The message \<open>credit\<close>: the keyword \<open>credit\<close> stands in the first two entries of both
  catalogs, \<open>balance\<close> before \<open>recharge\<close> in \<open>mobilisBot\<close> and \<open>balance_inquiry\<close> before
  \<open>recharge\<close> in the default storage, and scores \<open>1\<close> in both.  The first entry is
  returned.  \<open>lower\<close> is \<open>toLowerCase\<close>.
\<close>

theorem classify_first_seen_wins_witness:
  "js ''credit'' \<noteq> []
   \<and> considerKeyword (js ''credit'') (js ''credit'') (js ''recharge'') (js ''recharge'') (js ''credit'')
        \<lparr>ServiceIntent.intent = js ''balance'', confidence = Finite 1, category = js ''balance''\<rparr> =
      \<lparr>ServiceIntent.intent = js ''balance'', confidence = Finite 1, category = js ''balance''\<rparr>
   \<and> (\<exists>k' \<in> set (entryKeywords (MobilisChatBot_catalog mobilisBot ! 1)).
        matches (trim (toLowerCase (js ''credit''))) k'
        \<and> ratio k' (js ''credit'') = ratio (js ''credit'') (js ''credit''))
   \<and> fst (MobilisChatBot_analyzeIntent (js ''credit'') mobilisBot) =
        selected (hd (MobilisChatBot_catalog mobilisBot)) (js ''credit'') (js ''credit'')
   \<and> selected (hd (MobilisChatBot_catalog mobilisBot)) (js ''credit'') (js ''credit'') =
        \<lparr>ServiceIntent.intent = js ''balance'', confidence = Finite 1, category = js ''balance''\<rparr>
   \<and> (\<exists>k' \<in> set (entryKeywords
          (MemStorage_catalog (newMemStorage [js ''1'', js ''2'', js ''3'', js ''4'', js ''5'']) ! 1)).
        matches (toLowerCase (js ''credit'')) k'
        \<and> ratio k' (js ''credit'') = ratio (js ''credit'') (js ''credit''))
   \<and> fst (analyzeIntent (js ''credit'')
          (newMemStorage [js ''1'', js ''2'', js ''3'', js ''4'', js ''5''])) =
        selected (hd (MemStorage_catalog (newMemStorage [js ''1'', js ''2'', js ''3'', js ''4'', js ''5''])))
          (js ''credit'') (js ''credit'')
   \<and> selected (hd (MemStorage_catalog (newMemStorage [js ''1'', js ''2'', js ''3'', js ''4'', js ''5''])))
          (js ''credit'') (js ''credit'') =
        \<lparr>ServiceIntent.intent = js ''balance_inquiry'', confidence = Finite 1,
         category = js ''balance''\<rparr>"
proof -
  let ?m = "js ''credit''"
  let ?bot = "MobilisChatBot_catalog mobilisBot"
  let ?st = "newMemStorage [js ''1'', js ''2'', js ''3'', js ''4'', js ''5'']"
  let ?sto = "MemStorage_catalog ?st"
  let ?best = "\<lparr>ServiceIntent.intent = js ''balance'', confidence = Finite 1, category = js ''balance''\<rparr>"
  have d: "distinct [js ''1'', js ''2'', js ''3'', js ''4'', js ''5'']" by code_simp
  note cat = MobilisChatBot_catalog_mobilisBot MemStorage_catalog_default [OF d]
  have ne: "?m \<noteq> []" by code_simp
  have tie: "js_div (length ?m) (length ?m) = confidence ?best" by code_simp
  have hit: "?m \<noteq> [] \<and> matches (trim (toLowerCase ?m)) ?m \<and> matches (toLowerCase ?m) ?m"
    by code_simp
  have bot_le: "\<forall>e' \<in> set (hd ?bot # tl ?bot). \<forall>k' \<in> set (entryKeywords e').
              matches (trim (toLowerCase ?m)) k' \<longrightarrow> ratio k' ?m \<le> ratio ?m ?m"
    unfolding cat by code_simp
  have sto_le: "\<forall>e' \<in> set (hd ?sto # tl ?sto). \<forall>k' \<in> set (entryKeywords e').
              matches (toLowerCase ?m) k' \<longrightarrow> ratio k' ?m \<le> ratio ?m ?m"
    unfolding cat by code_simp
  have bot: "?bot = [] @ hd ?bot # tl ?bot
        \<and> ?m \<in> set (entryKeywords (hd ?bot)) \<and> ?m \<noteq> [] \<and> matches (trim (toLowerCase ?m)) ?m
        \<and> (\<forall>e' \<in> set []. \<forall>k' \<in> set (entryKeywords e').
              matches (trim (toLowerCase ?m)) k' \<longrightarrow> ratio k' ?m < ratio ?m ?m)
        \<and> (\<forall>e' \<in> set (hd ?bot # tl ?bot). \<forall>k' \<in> set (entryKeywords e').
              matches (trim (toLowerCase ?m)) k' \<longrightarrow> ratio k' ?m \<le> ratio ?m ?m)"
    using hit bot_le unfolding cat by (simp add: entryKeywords_def)
  have sto: "?sto = [] @ hd ?sto # tl ?sto
        \<and> ?m \<in> set (entryKeywords (hd ?sto)) \<and> ?m \<noteq> [] \<and> matches (toLowerCase ?m) ?m
        \<and> (\<forall>e' \<in> set []. \<forall>k' \<in> set (entryKeywords e').
              matches (toLowerCase ?m) k' \<longrightarrow> ratio k' ?m < ratio ?m ?m)
        \<and> (\<forall>e' \<in> set (hd ?sto # tl ?sto). \<forall>k' \<in> set (entryKeywords e').
              matches (toLowerCase ?m) k' \<longrightarrow> ratio k' ?m \<le> ratio ?m ?m)"
    using hit sto_le unfolding cat by (simp add: entryKeywords_def)
  have bot2: "\<exists>k' \<in> set (entryKeywords (?bot ! 1)).
        matches (trim (toLowerCase ?m)) k' \<and> ratio k' ?m = ratio ?m ?m"
    using hit unfolding cat by (simp add: entryKeywords_def)
  have sto2: "\<exists>k' \<in> set (entryKeywords (?sto ! 1)).
        matches (toLowerCase ?m) k' \<and> ratio k' ?m = ratio ?m ?m"
    using hit unfolding cat by (simp add: entryKeywords_def)
  have r1: "ratio ?m ?m = 1" by code_simp
  have bot3: "selected (hd ?bot) ?m ?m = ?best"
    unfolding cat by (simp add: selected_def entryIntent_def entryCategory_def r1)
  have sto3: "selected (hd ?sto) ?m ?m =
        \<lparr>ServiceIntent.intent = js ''balance_inquiry'', confidence = Finite 1,
         category = js ''balance''\<rparr>"
    unfolding cat by (simp add: selected_def entryIntent_def entryCategory_def r1)
  note T = classify_first_seen_wins [where lower = toLowerCase, OF ne]
  have 1: "considerKeyword ?m ?m (js ''recharge'') (js ''recharge'') ?m ?best = ?best"
    using T [THEN conjunct1, THEN mp, OF tie] .
  have 2: "fst (MobilisChatBot_analyzeIntent ?m mobilisBot) = selected (hd ?bot) ?m ?m"
    using T [THEN conjunct2, THEN conjunct1, THEN mp, OF bot] .
  have 3: "fst (analyzeIntent ?m ?st) = selected (hd ?sto) ?m ?m"
    using T [THEN conjunct2, THEN conjunct2, THEN mp, OF sto] .
  show ?thesis using ne 1 bot2 2 bot3 sto2 3 sto3 by (intro conjI)
qed

text \<open>
  \<^bold>\<open>C5.\<close>  As stated the claim fails for \<open>MobilisChatBot.generateResponse\<close>, which has
  no way to signal a missing entry: for an intent id that its reply table does not hold it
  returns the unknown message itself.  Amended: for a confidence of at least \<open>0.1\<close> and
  an intent id that no active response of the storage has, \<open>generateBotResponse\<close> returns
  \<open>null\<close> and leaves the storage as it is, and its callers then build no bot message;
  for a confidence of at least \<open>0.1\<close> and an intent id that is no property of the reply
  table, \<open>generateResponse\<close> returns the unknown message of the language.
\<close>

theorem resolveReply_not_found:
  "(js_ge (confidence i) (Finite (1 / 10))
      \<and> (\<forall>r \<in> set (fst (getAllBotResponses storage)).
            InsertBotResponse.intent r \<noteq> ServiceIntent.intent i)
     \<longrightarrow> generateBotResponse i language storage = (None, storage)
         \<and> botMessage (fst (generateBotResponse i language storage)) = None)
   \<and> (js_ge (confidence i) (Finite (1 / 10))
      \<and> getProperty (responses language) (ServiceIntent.intent i) = None
     \<longrightarrow> generateResponse i language = JSString (unknown (responses language)))"
proof (intro conjI impI)
  assume a: "js_ge (confidence i) (Finite (1 / 10))
      \<and> (\<forall>r \<in> set (fst (getAllBotResponses storage)).
            InsertBotResponse.intent r \<noteq> ServiceIntent.intent i)"
  then have no: "\<not> js_lt (confidence i) (Finite (1 / 10))" by (simp add: js_ge_not_lt)
  have "fst (getBotResponseByIntent (ServiceIntent.intent i) storage) = None"
    using a by (intro getBotResponseByIntent_None) simp
  moreover have "snd (getBotResponseByIntent (ServiceIntent.intent i) storage) = storage"
    by (simp add: getBotResponseByIntent_def)
  ultimately show r: "generateBotResponse i language storage = (None, storage)"
    using no by (simp add: generateBotResponse_def split_beta)
  show "botMessage (fst (generateBotResponse i language storage)) = None"
    by (simp add: r botMessage_def)
next
  assume "js_ge (confidence i) (Finite (1 / 10))
      \<and> getProperty (responses language) (ServiceIntent.intent i) = None"
  then show "generateResponse i language = JSString (unknown (responses language))"
    by (simp add: generateResponse_def js_ge_not_lt)
qed

text \<open>
  The message \<open>solde\<close> is classified on the scenario storage, the response is deleted,
  and the reply is asked for on the storage that is left; and \<open>generateResponse\<close> is
  asked for the intent id \<open>balance_inquiry\<close> of the storage, which its table does not
  hold.
\<close>

theorem resolveReply_not_found_witness:
  "fst (analyzeIntent (js ''solde'') (scenarioStorage (js ''1'') (js ''A'') (js ''F''))) =
     \<lparr>ServiceIntent.intent = js ''balance_inquiry'', confidence = Finite 1,
      category = js ''balance''\<rparr>
   \<and> deleteBotResponse (js ''1'') (scenarioStorage (js ''1'') (js ''A'') (js ''F'')) =
     (True, \<lparr>botResponses = []\<rparr>)
   \<and> generateBotResponse
        \<lparr>ServiceIntent.intent = js ''balance_inquiry'', confidence = Finite 1,
         category = js ''balance''\<rparr> fr \<lparr>botResponses = []\<rparr> = (None, \<lparr>botResponses = []\<rparr>)
   \<and> botMessage (fst (generateBotResponse
        \<lparr>ServiceIntent.intent = js ''balance_inquiry'', confidence = Finite 1,
         category = js ''balance''\<rparr> fr \<lparr>botResponses = []\<rparr>)) = None
   \<and> generateResponse
        \<lparr>ServiceIntent.intent = js ''balance_inquiry'', confidence = Finite 1,
         category = js ''balance''\<rparr> fr = JSString (unknown responses_fr)"
proof -
  let ?i = "\<lparr>ServiceIntent.intent = js ''balance_inquiry'', confidence = Finite 1,
         category = js ''balance''\<rparr>"
  let ?st = "\<lparr>botResponses = []\<rparr>"
  have 1: "fst (analyzeIntent (js ''solde'') (scenarioStorage (js ''1'') (js ''A'') (js ''F''))) = ?i"
    by code_simp
  have 2: "deleteBotResponse (js ''1'') (scenarioStorage (js ''1'') (js ''A'') (js ''F'')) = (True, ?st)"
    by code_simp
  have h1: "js_ge (confidence ?i) (Finite (1 / 10))
      \<and> (\<forall>r \<in> set (fst (getAllBotResponses ?st)).
            InsertBotResponse.intent r \<noteq> ServiceIntent.intent ?i)"
    by code_simp
  have h2: "js_ge (confidence ?i) (Finite (1 / 10))
      \<and> getProperty (responses fr) (ServiceIntent.intent ?i) = None"
    by code_simp
  note T = resolveReply_not_found [of ?i ?st fr]
  have 3: "generateBotResponse ?i fr ?st = (None, ?st)"
    and 5: "botMessage (fst (generateBotResponse ?i fr ?st)) = None"
    using T [THEN conjunct1, THEN mp, OF h1] by blast+
  have 4: "generateResponse ?i fr = JSString (unknown responses_fr)"
    using T [THEN conjunct2, THEN mp, OF h2] by (simp add: responses_def)
  show ?thesis using 1 2 3 5 4 by (intro conjI)
qed

text \<open>
  \<open>generateResponse\<close> on the intent id \<open>balance_inquiry\<close> with confidence \<open>0.5\<close>: the
  reply table has no such property, and what is returned is a reply string, the unknown
  message.
\<close>

theorem resolveReply_not_found_counterexample:
  "js_ge (Finite (1 / 2)) (Finite (1 / 10))
   \<and> getProperty (responses fr) (js ''balance_inquiry'') = None
   \<and> generateResponse
        \<lparr>ServiceIntent.intent = js ''balance_inquiry'', confidence = Finite (1 / 2),
         category = js ''balance''\<rparr> fr = JSString (unknown responses_fr)"
  by code_simp

text \<open>
  \<^bold>\<open>C6.\<close>  As stated the claim fails where lower-casing makes the message longer:
  \<open>toLowerCase\<close> turns U+0130 into the two code units U+0069 U+0307, the match is tested
  on the lower-cased strings and the confidence is computed from the lengths of the
  strings as they are, so the keyword \<open>U+0069 U+0307\<close> scores \<open>2 / 1\<close> on the message
  \<open>U+0130\<close>.  Amended: the confidence returned is always a finite number that is not
  negative, and it is at most \<open>1\<close> for every message that lower-casing does not make
  longer, which is every message without U+0130.
\<close>

theorem classify_confidence_range:
  "(\<exists>q. confidence (fst (analyzeIntent message storage)) = Finite q \<and> 0 \<le> q
        \<and> (length (toLowerCase message) \<le> length message \<longrightarrow> q \<le> 1))
   \<and> (\<exists>q. confidence (fst (MobilisChatBot_analyzeIntent message this)) = Finite q \<and> 0 \<le> q
        \<and> (length (toLowerCase message) \<le> length message \<longrightarrow> q \<le> 1))
   \<and> (0x130 \<notin> set message \<longrightarrow> length (toLowerCase message) = length message)"
proof (intro conjI impI)
  show "\<exists>q. confidence (fst (analyzeIntent message storage)) = Finite q \<and> 0 \<le> q
        \<and> (length (toLowerCase message) \<le> length message \<longrightarrow> q \<le> 1)"
    using analyzeIntent_shape [OF toLowerCase_eq_Nil] by (rule shape_range) simp
  show "\<exists>q. confidence (fst (MobilisChatBot_analyzeIntent message this)) = Finite q \<and> 0 \<le> q
        \<and> (length (toLowerCase message) \<le> length message \<longrightarrow> q \<le> 1)"
    using MobilisChatBot_analyzeIntent_shape [OF toLowerCase_eq_Nil]
    by (rule shape_range) (rule length_trim)
next
  assume "0x130 \<notin> set message"
  then show "length (toLowerCase message) = length message" by (rule toLowerCase_same_length)
qed

text \<open>
  The message \<open>solde\<close> on the scenario storage and on \<open>mobilisBot\<close>: the keyword is the
  whole message and the confidence is exactly \<open>1\<close>.
\<close>

theorem classify_confidence_range_witness:
  "0x130 \<notin> set (js ''solde'')
   \<and> length (toLowerCase (js ''solde'')) = length (js ''solde'')
   \<and> (\<exists>q. confidence (fst (analyzeIntent (js ''solde'')
                (scenarioStorage (js ''1'') (js ''A'') (js ''F'')))) = Finite q \<and> 0 \<le> q \<and> q \<le> 1)
   \<and> confidence (fst (analyzeIntent (js ''solde'')
                (scenarioStorage (js ''1'') (js ''A'') (js ''F'')))) = Finite 1
   \<and> (\<exists>q. confidence (fst (MobilisChatBot_analyzeIntent (js ''solde'') mobilisBot)) = Finite q
          \<and> 0 \<le> q \<and> q \<le> 1)
   \<and> confidence (fst (MobilisChatBot_analyzeIntent (js ''solde'') mobilisBot)) = Finite 1"
proof -
  let ?m = "js ''solde''"
  let ?st = "scenarioStorage (js ''1'') (js ''A'') (js ''F'')"
  have h: "0x130 \<notin> set ?m" by code_simp
  note T = classify_confidence_range [of ?m ?st mobilisBot]
  have len: "length (toLowerCase ?m) = length ?m"
    using T [THEN conjunct2, THEN conjunct2, THEN mp, OF h] .
  have 1: "\<exists>q. confidence (fst (analyzeIntent ?m ?st)) = Finite q \<and> 0 \<le> q \<and> q \<le> 1"
    using T [THEN conjunct1] len by auto
  have 2: "\<exists>q. confidence (fst (MobilisChatBot_analyzeIntent ?m mobilisBot)) = Finite q
          \<and> 0 \<le> q \<and> q \<le> 1"
    using T [THEN conjunct2, THEN conjunct1] len by auto
  have 3: "confidence (fst (analyzeIntent ?m ?st)) = Finite 1" by code_simp
  have 4: "confidence (fst (MobilisChatBot_analyzeIntent ?m mobilisBot)) = Finite 1" by code_simp
  show ?thesis using h len 1 3 2 4 by (intro conjI)
qed

text \<open>
  The message U+0130 and the keyword U+0069 U+0307: the lower-cased message is the
  keyword, and the confidence is \<open>2\<close>.
\<close>

theorem classify_confidence_range_counterexample:
  "toLowerCase [0x130] = [0x69, 0x307]
   \<and> confidence (fst (analyzeIntent [0x130]
        \<lparr>botResponses = [(js ''1'',
           \<lparr>InsertBotResponse.intent = js ''greeting'', keywords' = JArray [[0x69, 0x307]],
            responseAr = js ''A'', responseFr = js ''F'', category = js ''general'',
            isActive = True, id' = js ''1''\<rparr>)]\<rparr>)) = Finite 2
   \<and> (1 :: rat) < 2"
  by code_simp

text \<open>
  \<^bold>\<open>C7.\<close>  The message \<open>quel est mon solde\<close> has 18 code units, not 19, so the claim
  fails on the confidence.  Amended: on the storage with the one response for
  \<open>balance_inquiry\<close>, keywords \<open>balance\<close> and \<open>solde\<close> and category \<open>balance\<close>, the
  message is classified as \<open>balance_inquiry\<close> with confidence \<open>5 / 18\<close>, and
  \<open>generateBotResponse\<close> gives the French reply of that response for the language
  \<open>fr\<close>.  The same holds on the default storage, whose French reply for
  \<open>balance_inquiry\<close> is the text that starts \<open>Vous pouvez consulter votre solde\<close>,
  whenever the five ids drawn for the defaults differ.
\<close>

theorem round_trip_scenario:
  "length (js ''quel est mon solde'') = 18
   \<and> fst (analyzeIntent (js ''quel est mon solde'') (scenarioStorage ident replyAr replyFr)) =
       \<lparr>ServiceIntent.intent = js ''balance_inquiry'', confidence = Finite (5 / 18),
        category = js ''balance''\<rparr>
   \<and> fst (generateBotResponse
            (fst (analyzeIntent (js ''quel est mon solde'') (scenarioStorage ident replyAr replyFr)))
            fr (scenarioStorage ident replyAr replyFr)) = Some replyFr
   \<and> (distinct [u1, u2, u3, u4, u5] \<longrightarrow>
        fst (analyzeIntent (js ''quel est mon solde'') (newMemStorage [u1, u2, u3, u4, u5])) =
          \<lparr>ServiceIntent.intent = js ''balance_inquiry'', confidence = Finite (5 / 18),
           category = js ''balance''\<rparr>
        \<and> fst (generateBotResponse
            (fst (analyzeIntent (js ''quel est mon solde'') (newMemStorage [u1, u2, u3, u4, u5])))
            fr (newMemStorage [u1, u2, u3, u4, u5])) =
          Some (js ''Vous pouvez consulter votre solde en composant '' @ [0x2A] @ js ''555''
                @ [0x23] @ js '' ou via l'' @ [0x27] @ js ''application Mobilis''))"
proof -
  let ?m = "js ''quel est mon solde''"
  let ?r = "\<lparr>ServiceIntent.intent = js ''balance_inquiry'', confidence = Finite (5 / 18),
        category = js ''balance''\<rparr>"
  have no: "\<not> js_lt (confidence ?r) (Finite (1 / 10))" by (simp add: js_lt_def)
  have len: "length ?m = 18" by (simp add: js_def)
  have 1: "fst (analyzeIntent ?m (scenarioStorage ident replyAr replyFr)) = ?r"
    unfolding analyzeIntent_scan MemStorage_catalog_scenario
    by (rule scan_quel_est_mon_solde_scenario)
  have "fst (generateBotResponse ?r fr (scenarioStorage ident replyAr replyFr)) =
        Some (responseFr (scenarioResponse ident replyAr replyFr))"
    using no by (rule generateBotResponse_found) (simp add: getBotResponseByIntent_scenario)
  then have 2: "fst (generateBotResponse ?r fr (scenarioStorage ident replyAr replyFr)) = Some replyFr"
    by (simp add: scenarioResponse_def)
  have 3: "fst (analyzeIntent ?m (newMemStorage [u1, u2, u3, u4, u5])) = ?r
        \<and> fst (generateBotResponse ?r fr (newMemStorage [u1, u2, u3, u4, u5])) =
          Some (js ''Vous pouvez consulter votre solde en composant '' @ [0x2A] @ js ''555''
                @ [0x23] @ js '' ou via l'' @ [0x27] @ js ''application Mobilis'')"
    if d: "distinct [u1, u2, u3, u4, u5]"
  proof
    show "fst (analyzeIntent ?m (newMemStorage [u1, u2, u3, u4, u5])) = ?r"
      using d by (rule analyzeIntent_quel_est_mon_solde_default)
    have "fst (generateBotResponse ?r fr (newMemStorage [u1, u2, u3, u4, u5])) =
        Some (responseFr (withId default_balance_inquiry u1))"
      using no by (rule generateBotResponse_found) (simp add: getBotResponseByIntent_default [OF d])
    then show "fst (generateBotResponse ?r fr (newMemStorage [u1, u2, u3, u4, u5])) =
          Some (js ''Vous pouvez consulter votre solde en composant '' @ [0x2A] @ js ''555''
                @ [0x23] @ js '' ou via l'' @ [0x27] @ js ''application Mobilis'')"
      by (simp add: withId_def default_balance_inquiry_def)
  qed
  show ?thesis using len 1 2 3 by simp
qed

text \<open>The default storage with the ids \<open>1\<close> to \<open>5\<close>.\<close>

theorem round_trip_scenario_witness:
  "distinct [js ''1'', js ''2'', js ''3'', js ''4'', js ''5'']
   \<and> fst (analyzeIntent (js ''quel est mon solde'')
          (newMemStorage [js ''1'', js ''2'', js ''3'', js ''4'', js ''5''])) =
        \<lparr>ServiceIntent.intent = js ''balance_inquiry'', confidence = Finite (5 / 18),
         category = js ''balance''\<rparr>
   \<and> fst (generateBotResponse
          (fst (analyzeIntent (js ''quel est mon solde'')
             (newMemStorage [js ''1'', js ''2'', js ''3'', js ''4'', js ''5''])))
          fr (newMemStorage [js ''1'', js ''2'', js ''3'', js ''4'', js ''5''])) =
        Some (js ''Vous pouvez consulter votre solde en composant '' @ [0x2A] @ js ''555''
              @ [0x23] @ js '' ou via l'' @ [0x27] @ js ''application Mobilis'')"
proof -
  have d: "distinct [js ''1'', js ''2'', js ''3'', js ''4'', js ''5'']" by code_simp
  show ?thesis
    using d round_trip_scenario [of "js ''1''" "js ''A''" "js ''F''" "js ''1''" "js ''2''" "js ''3''"
        "js ''4''" "js ''5''"]
    by blast
qed

text \<open>The confidence on the scenario storage is \<open>5 / 18\<close>, which is not \<open>5 / 19\<close>.\<close>

theorem round_trip_scenario_counterexample:
  "length (js ''quel est mon solde'') = 18
   \<and> confidence (fst (analyzeIntent (js ''quel est mon solde'')
        (scenarioStorage (js ''1'') (js ''A'') (js ''F'')))) = Finite (5 / 18)
   \<and> Finite (5 / 18) \<noteq> Finite (5 / 19)"
  by code_simp

text \<open>
  \<^bold>\<open>C8.\<close>  Both functions lower-case the message and each keyword before the substring
  test, and \<open>SOLDE please\<close> matches the keyword \<open>solde\<close> in both.
  \<open>MobilisChatBot.analyzeIntent\<close> also trims the message; the route's \<open>analyzeIntent\<close>
  does not.  The two tests differ only for a keyword whose lower-cased form begins or ends
  with white space (\<open>matches_trim_fixed\<close>).  With the keyword \<open>solde\<close> followed by a
  space and the message \<open>SOLDE\<close> followed by a space, the trimmed message is \<open>solde\<close>
  and does not hold the keyword, yet the route's function matches it with confidence
  \<open>1\<close>.
\<close>

theorem analyzeIntent_without_trim:
  "fst (MobilisChatBot_analyzeIntent (js ''SOLDE please'') mobilisBot) =
     \<lparr>ServiceIntent.intent = js ''balance'', confidence = Finite (5 / 12),
      category = js ''balance''\<rparr>
   \<and> fst (analyzeIntent (js ''SOLDE please'')
          (newMemStorage [js ''1'', js ''2'', js ''3'', js ''4'', js ''5''])) =
     \<lparr>ServiceIntent.intent = js ''balance_inquiry'', confidence = Finite (5 / 12),
      category = js ''balance''\<rparr>
   \<and> trim (toLowerCase (js ''SOLDE '')) = js ''solde''
   \<and> \<not> matches (trim (toLowerCase (js ''SOLDE ''))) (js ''solde '')
   \<and> fst (analyzeIntent (js ''SOLDE '')
          \<lparr>botResponses = [(js ''1'',
             \<lparr>InsertBotResponse.intent = js ''balance_inquiry'',
              keywords' = JArray [js ''solde ''], responseAr = js ''A'', responseFr = js ''F'',
              category = js ''balance'', isActive = True, id' = js ''1''\<rparr>)]\<rparr>) =
     \<lparr>ServiceIntent.intent = js ''balance_inquiry'', confidence = Finite 1,
      category = js ''balance''\<rparr>"
proof -
  have d: "distinct [js ''1'', js ''2'', js ''3'', js ''4'', js ''5'']" by code_simp
  have 1: "fst (MobilisChatBot_analyzeIntent (js ''SOLDE please'') mobilisBot) =
     \<lparr>ServiceIntent.intent = js ''balance'', confidence = Finite (5 / 12),
      category = js ''balance''\<rparr>"
    unfolding MobilisChatBot_analyzeIntent_scan MobilisChatBot_catalog_mobilisBot by code_simp
  have 2: "fst (analyzeIntent (js ''SOLDE please'')
          (newMemStorage [js ''1'', js ''2'', js ''3'', js ''4'', js ''5''])) =
     \<lparr>ServiceIntent.intent = js ''balance_inquiry'', confidence = Finite (5 / 12),
      category = js ''balance''\<rparr>"
    unfolding analyzeIntent_scan MemStorage_catalog_default [OF d] by code_simp
  have 3: "trim (toLowerCase (js ''SOLDE '')) = js ''solde''
   \<and> \<not> matches (trim (toLowerCase (js ''SOLDE ''))) (js ''solde '')
   \<and> fst (analyzeIntent (js ''SOLDE '')
          \<lparr>botResponses = [(js ''1'',
             \<lparr>InsertBotResponse.intent = js ''balance_inquiry'',
              keywords' = JArray [js ''solde ''], responseAr = js ''A'', responseFr = js ''F'',
              category = js ''balance'', isActive = True, id' = js ''1''\<rparr>)]\<rparr>) =
     \<lparr>ServiceIntent.intent = js ''balance_inquiry'', confidence = Finite 1,
      category = js ''balance''\<rparr>"
    by code_simp
  show ?thesis using 1 2 3 by blast
qed

text \<open>
  \<^bold>\<open>C9.\<close>  Neither \<open>analyzeIntent\<close> changes what it reads: the storage, and with it
  every response of the catalog with its intent, keywords, category, replies and active
  flag, is handed back as it was received, and so is the \<open>MobilisChatBot\<close> object; a
  second call with the same message therefore returns the same result.
\<close>

theorem classify_frame:
  "snd (analyzeIntent text storage) = storage
   \<and> snd (MobilisChatBot_analyzeIntent message this) = this
   \<and> fst (analyzeIntent text (snd (analyzeIntent text storage))) = fst (analyzeIntent text storage)
   \<and> fst (MobilisChatBot_analyzeIntent message (snd (MobilisChatBot_analyzeIntent message this))) =
       fst (MobilisChatBot_analyzeIntent message this)"
proof -
  have 1: "snd (analyzeIntent text storage) = storage"
    by (simp add: analyzeIntentWith_def getAllBotResponses_def)
  have 2: "snd (MobilisChatBot_analyzeIntent message this) = this"
    by (simp add: MobilisChatBot_analyzeIntentWith_def)
  show ?thesis by (simp add: 1 2)
qed

text \<open>
  \<^bold>\<open>C10.\<close>  As stated the claim fails on a catalog with an entry that is itself named
  \<open>unknown\<close>: its match returns the intent \<open>unknown\<close> with a confidence above \<open>0\<close>.
  Amended: every result is either exactly the unknown result, or has a confidence above
  \<open>0\<close> with the intent and the category of a catalog entry one of whose keywords is not
  empty and matches (its lower-cased form occurs in the normalized message, which is the
  lower-cased message for the route's function and the lower-cased, trimmed message for
  \<open>MobilisChatBot\<close>); so an empty keyword never has its entry selected.  The confidence is
  \<open>0\<close> precisely when the result is the unknown result, and where no entry of the
  catalog is named \<open>unknown\<close>, the intent is \<open>unknown\<close> precisely when the confidence
  is \<open>0\<close>.  Of the lower-casing function \<open>lower\<close> only this is used: the lower case
  of a string is empty precisely when the string is, as it is for \<open>toLowerCase\<close>, which
  maps every code point to one code point or more.
\<close>

theorem classify_result_shape:
  assumes "\<forall>s. (lower s = []) = (s = [])"
  shows
  "(fst (analyzeIntentWith lower message storage) =
      \<lparr>ServiceIntent.intent = js ''unknown'', confidence = Finite 0, category = js ''general''\<rparr>
    \<or> (\<exists>e \<in> set (MemStorage_catalog storage). \<exists>k \<in> set (entryKeywords e).
          k \<noteq> [] \<and> matchesWith lower (lower message) k \<and> 0 < ratio k message
          \<and> fst (analyzeIntentWith lower message storage) = selected e k message))
   \<and> (fst (MobilisChatBot_analyzeIntentWith lower message this) =
      \<lparr>ServiceIntent.intent = js ''unknown'', confidence = Finite 0, category = js ''general''\<rparr>
    \<or> (\<exists>e \<in> set (MobilisChatBot_catalog this). \<exists>k \<in> set (entryKeywords e).
          k \<noteq> [] \<and> matchesWith lower (trim (lower message)) k \<and> 0 < ratio k message
          \<and> fst (MobilisChatBot_analyzeIntentWith lower message this) = selected e k message))
   \<and> (confidence (fst (analyzeIntentWith lower message storage)) = Finite 0 \<longleftrightarrow>
        fst (analyzeIntentWith lower message storage) =
          \<lparr>ServiceIntent.intent = js ''unknown'', confidence = Finite 0,
           category = js ''general''\<rparr>)
   \<and> (confidence (fst (MobilisChatBot_analyzeIntentWith lower message this)) = Finite 0 \<longleftrightarrow>
        fst (MobilisChatBot_analyzeIntentWith lower message this) =
          \<lparr>ServiceIntent.intent = js ''unknown'', confidence = Finite 0,
           category = js ''general''\<rparr>)
   \<and> ((\<forall>e \<in> set (MemStorage_catalog storage). entryIntent e \<noteq> js ''unknown'') \<longrightarrow>
        (ServiceIntent.intent (fst (analyzeIntentWith lower message storage)) = js ''unknown'' \<longleftrightarrow>
         confidence (fst (analyzeIntentWith lower message storage)) = Finite 0))
   \<and> ((\<forall>e \<in> set (MobilisChatBot_catalog this). entryIntent e \<noteq> js ''unknown'') \<longrightarrow>
        (ServiceIntent.intent (fst (MobilisChatBot_analyzeIntentWith lower message this)) = js ''unknown'' \<longleftrightarrow>
         confidence (fst (MobilisChatBot_analyzeIntentWith lower message this)) = Finite 0))"
proof -
  have lower: "(lower s = []) = (s = [])" for s using assms by simp
  note s = analyzeIntent_shape [of lower message storage, OF lower]
  note b = MobilisChatBot_analyzeIntent_shape [of lower message this, OF lower]
  have 1: "fst (analyzeIntentWith lower message storage) = unknownMatch
    \<or> (\<exists>e \<in> set (MemStorage_catalog storage). \<exists>k \<in> set (entryKeywords e).
          k \<noteq> [] \<and> matchesWith lower (lower message) k \<and> 0 < ratio k message
          \<and> fst (analyzeIntentWith lower message storage) = selected e k message)"
  proof (rule disjE [OF s])
    assume "fst (analyzeIntentWith lower message storage) = unknownMatch"
    then show ?thesis by simp
  next
    assume "\<exists>e \<in> set (MemStorage_catalog storage). \<exists>k \<in> set (entryKeywords e).
        k \<noteq> [] \<and> message \<noteq> [] \<and> matchesWith lower (lower message) k
        \<and> fst (analyzeIntentWith lower message storage) = selected e k message"
    then obtain e k where "e \<in> set (MemStorage_catalog storage)" "k \<in> set (entryKeywords e)"
      "k \<noteq> []" "message \<noteq> []" "matchesWith lower (lower message) k"
      "fst (analyzeIntentWith lower message storage) = selected e k message" by blast
    moreover from this have "0 < ratio k message" by (simp add: ratio_pos)
    ultimately show ?thesis by blast
  qed
  have 2: "fst (MobilisChatBot_analyzeIntentWith lower message this) = unknownMatch
    \<or> (\<exists>e \<in> set (MobilisChatBot_catalog this). \<exists>k \<in> set (entryKeywords e).
          k \<noteq> [] \<and> matchesWith lower (trim (lower message)) k \<and> 0 < ratio k message
          \<and> fst (MobilisChatBot_analyzeIntentWith lower message this) = selected e k message)"
  proof (rule disjE [OF b])
    assume "fst (MobilisChatBot_analyzeIntentWith lower message this) = unknownMatch"
    then show ?thesis by simp
  next
    assume "\<exists>e \<in> set (MobilisChatBot_catalog this). \<exists>k \<in> set (entryKeywords e).
        k \<noteq> [] \<and> message \<noteq> [] \<and> matchesWith lower (trim (lower message)) k
        \<and> fst (MobilisChatBot_analyzeIntentWith lower message this) = selected e k message"
    then obtain e k where "e \<in> set (MobilisChatBot_catalog this)" "k \<in> set (entryKeywords e)"
      "k \<noteq> []" "message \<noteq> []" "matchesWith lower (trim (lower message)) k"
      "fst (MobilisChatBot_analyzeIntentWith lower message this) = selected e k message" by blast
    moreover from this have "0 < ratio k message" by (simp add: ratio_pos)
    ultimately show ?thesis by blast
  qed
  have 3: "confidence (fst (analyzeIntentWith lower message storage)) = Finite 0 \<longleftrightarrow>
        fst (analyzeIntentWith lower message storage) = unknownMatch"
    using s by (rule shape_zero)
  have 4: "confidence (fst (MobilisChatBot_analyzeIntentWith lower message this)) = Finite 0 \<longleftrightarrow>
        fst (MobilisChatBot_analyzeIntentWith lower message this) = unknownMatch"
    using b by (rule shape_zero)
  have 5: "ServiceIntent.intent (fst (analyzeIntentWith lower message storage)) = js ''unknown'' \<longleftrightarrow>
         confidence (fst (analyzeIntentWith lower message storage)) = Finite 0"
    if "\<forall>e \<in> set (MemStorage_catalog storage). entryIntent e \<noteq> js ''unknown''"
    using s that by (rule shape_unknown)
  have 6: "ServiceIntent.intent (fst (MobilisChatBot_analyzeIntentWith lower message this)) = js ''unknown'' \<longleftrightarrow>
         confidence (fst (MobilisChatBot_analyzeIntentWith lower message this)) = Finite 0"
    if "\<forall>e \<in> set (MobilisChatBot_catalog this). entryIntent e \<noteq> js ''unknown''"
    using b that by (rule shape_unknown)
  show ?thesis
    using 1 2 3 4 5 6 unfolding unknownMatch_def by (intro conjI impI)
qed

text \<open>
  The messages \<open>mon solde\<close> and \<open>hi\<close> on the scenario storage and on \<open>mobilisBot\<close>,
  neither of which has an entry named \<open>unknown\<close>, with \<open>toLowerCase\<close> for \<open>lower\<close>.
\<close>

theorem classify_result_shape_witness:
  "(ServiceIntent.intent (fst (analyzeIntent (js ''mon solde'')
        (scenarioStorage (js ''1'') (js ''A'') (js ''F'')))) = js ''unknown'' \<longleftrightarrow>
    confidence (fst (analyzeIntent (js ''mon solde'')
        (scenarioStorage (js ''1'') (js ''A'') (js ''F'')))) = Finite 0)
   \<and> (ServiceIntent.intent (fst (MobilisChatBot_analyzeIntent (js ''hi'') mobilisBot)) = js ''unknown'' \<longleftrightarrow>
      confidence (fst (MobilisChatBot_analyzeIntent (js ''hi'') mobilisBot)) = Finite 0)
   \<and> fst (analyzeIntent (js ''mon solde'') (scenarioStorage (js ''1'') (js ''A'') (js ''F''))) =
      \<lparr>ServiceIntent.intent = js ''balance_inquiry'', confidence = Finite (5 / 9),
       category = js ''balance''\<rparr>
   \<and> fst (MobilisChatBot_analyzeIntent (js ''hi'') mobilisBot) =
      \<lparr>ServiceIntent.intent = js ''greeting'', confidence = Finite 1, category = js ''general''\<rparr>"
proof -
  let ?st = "scenarioStorage (js ''1'') (js ''A'') (js ''F'')"
  have h0: "\<forall>s. (toLowerCase s = []) = (s = [])"
    by (simp add: toLowerCase_eq_Nil)
  have h1: "\<forall>e \<in> set (MemStorage_catalog ?st). entryIntent e \<noteq> js ''unknown''"
    by code_simp
  have h2: "\<forall>e \<in> set (MobilisChatBot_catalog mobilisBot). entryIntent e \<noteq> js ''unknown''"
    by code_simp
  have 1: "ServiceIntent.intent (fst (analyzeIntent (js ''mon solde'') ?st)) = js ''unknown'' \<longleftrightarrow>
    confidence (fst (analyzeIntent (js ''mon solde'') ?st)) = Finite 0"
    using classify_result_shape [where lower = toLowerCase and message = "js ''mon solde''"
        and storage = ?st] h0 h1 by blast
  have 2: "ServiceIntent.intent (fst (MobilisChatBot_analyzeIntent (js ''hi'') mobilisBot)) = js ''unknown'' \<longleftrightarrow>
      confidence (fst (MobilisChatBot_analyzeIntent (js ''hi'') mobilisBot)) = Finite 0"
    using classify_result_shape [where lower = toLowerCase and message = "js ''hi''"
        and this = mobilisBot] h0 h2 by blast
  have 3: "fst (analyzeIntent (js ''mon solde'') ?st) =
      \<lparr>ServiceIntent.intent = js ''balance_inquiry'', confidence = Finite (5 / 9),
       category = js ''balance''\<rparr>" by code_simp
  have 4: "fst (MobilisChatBot_analyzeIntent (js ''hi'') mobilisBot) =
      \<lparr>ServiceIntent.intent = js ''greeting'', confidence = Finite 1, category = js ''general''\<rparr>"
    by code_simp
  show ?thesis using 1 2 3 4 by (intro conjI)
qed

text \<open>
  An active response named \<open>unknown\<close> with the keyword \<open>hi\<close>, and the message \<open>hi\<close>:
  the intent returned is \<open>unknown\<close> and the confidence is \<open>1\<close>.
\<close>

theorem classify_result_shape_counterexample:
  "fst (analyzeIntent (js ''hi'')
        \<lparr>botResponses = [(js ''1'',
           \<lparr>InsertBotResponse.intent = js ''unknown'', keywords' = JArray [js ''hi''],
            responseAr = js ''A'', responseFr = js ''F'', category = js ''general'',
            isActive = True, id' = js ''1''\<rparr>)]\<rparr>) =
     \<lparr>ServiceIntent.intent = js ''unknown'', confidence = Finite 1, category = js ''general''\<rparr>
   \<and> Finite 1 \<noteq> Finite 0"
  by code_simp

end
